theory Spec2Isabelle
  imports Complex_Main
begin

section \<open>Funsors\<close>

text \<open>
  The module \<^verbatim>\<open>pyro/contrib/funsor/infer/traceenum_elbo.py\<close> works on funsors: terms
  of a tensor algebra whose free variables (the \<^emph>\<open>inputs\<close>) are named and typed. The
  module only builds such terms (\<^verbatim>\<open>a * b\<close>, \<^verbatim>\<open>-a\<close>, \<^verbatim>\<open>a + b\<close>,
  \<^verbatim>\<open>Integrate\<close>, \<^verbatim>\<open>.reduce\<close>), reads their inputs and converts a scale to a float.
  Funsors are therefore the term algebra itself: every operation of the module is kept
  as the term it denotes, and \<open>inputs\<close> is computed from the term.
  All inputs met here are bounded integers (plates and enumerated variables).
\<close>

datatype domain = Bint nat

datatype un_op = Neg

datatype bin_op = Add | Mul | Logaddexp

datatype funsor =
    Number real
  | Tensor "(string \<times> domain) list" "real list"
  | Unary un_op funsor
  | Binary bin_op funsor funsor
  | Reduce bin_op funsor "string set"
  | Integrate funsor funsor "string set"

text \<open>The size of a domain (\<^verbatim>\<open>v.size\<close>).\<close>

fun dom_size :: "domain \<Rightarrow> nat" where
  "dom_size (Bint n) = n"

text \<open>
  Merging two ordered dictionaries of inputs (\<^verbatim>\<open>OrderedDict.update\<close>): the keys of the
  first, then the new keys of the second.
\<close>

definition merge_inputs :: "(string \<times> domain) list \<Rightarrow> (string \<times> domain) list \<Rightarrow> (string \<times> domain) list" where
  "merge_inputs xs ys = xs @ filter (\<lambda>kv. fst kv \<notin> fst ` set xs) ys"

fun inputs :: "funsor \<Rightarrow> (string \<times> domain) list" where
  "inputs (Number x) = []"
| "inputs (Tensor ins d) = ins"
| "inputs (Unary opr a) = inputs a"
| "inputs (Binary opr a b) = merge_inputs (inputs a) (inputs b)"
| "inputs (Reduce opr a vs) = filter (\<lambda>kv. fst kv \<notin> vs) (inputs a)"
| "inputs (Integrate lm f vs) = filter (\<lambda>kv. fst kv \<notin> vs) (merge_inputs (inputs lm) (inputs f))"

text \<open>\<^verbatim>\<open>frozenset(f.inputs)\<close> and \<^verbatim>\<open>set(f.inputs)\<close>: the names of the inputs.\<close>

definition input_names :: "funsor \<Rightarrow> string set" where
  "input_names f = fst ` set (inputs f)"

text \<open>
  \<^verbatim>\<open>dict(a.inputs) == dict(b.inputs)\<close>: equality of two dictionaries, whatever the
  order of their keys.
\<close>

definition dict_eq :: "(string \<times> domain) list \<Rightarrow> (string \<times> domain) list \<Rightarrow> bool" where
  "dict_eq xs ys = (\<forall>k \<in> set (map fst xs @ map fst ys). map_of xs k = map_of ys k)"

datatype error = ValueError | RuntimeError | StopIteration

text \<open>
  \<^verbatim>\<open>float(to_data(x))\<close>: a number or a tensor without inputs holding one value
  converts; a funsor with free inputs, or a lazy term, raises.
\<close>

fun to_data_float :: "funsor \<Rightarrow> error + real" where
  "to_data_float (Number x) = Inr x"
| "to_data_float (Tensor ins d) =
     (case ins of
        [] \<Rightarrow> (case d of [x] \<Rightarrow> Inr x | _ \<Rightarrow> Inl ValueError)
      | _ \<Rightarrow> Inl ValueError)"
| "to_data_float (Unary opr a) = Inl ValueError"
| "to_data_float (Binary opr a b) = Inl ValueError"
| "to_data_float (Reduce opr a vs) = Inl ValueError"
| "to_data_float (Integrate lm f vs) = Inl ValueError"

text \<open>
  \<^verbatim>\<open>a * b\<close> as \<^verbatim>\<open>terms_from_trace\<close> evaluates it: the function runs before the lazy
  interpretation is entered (lines 63, 64, 137 and 138), so the product is computed at
  once, and broadcasting the two tensors raises when they give different domains to an
  input that they share. When it is computed, the product is the tensor that the term
  \<open>Binary Mul a b\<close> denotes, and it is kept as this term.
\<close>

definition inputs_agree :: "funsor \<Rightarrow> funsor \<Rightarrow> bool" where
  "inputs_agree a b \<longleftrightarrow>
     (\<forall>k \<in> input_names a \<inter> input_names b. map_of (inputs a) k = map_of (inputs b) k)"

definition mul_funsor :: "funsor \<Rightarrow> funsor \<Rightarrow> error + funsor" where
  "mul_funsor a b = (if inputs_agree a b then Inr (Binary Mul a b) else Inl RuntimeError)"

section \<open>Execution traces\<close>

text \<open>
  A trace is an ordered dictionary from site names to node records. The fields below are
  the ones \<^verbatim>\<open>terms_from_trace\<close> reads. A field read with \<^verbatim>\<open>node.get(key, False)\<close>
  is an option, \<open>None\<close> when the key is absent; \<open>fn_type_name\<close> is
  \<^verbatim>\<open>type(node["fn"]).__name__\<close>; \<open>node_value\<close> is the step descriptor that a
  \<^verbatim>\<open>markov_chain\<close> record carries as its value.
\<close>

type_synonym step = "string list list"

record frame =
  frame_name :: string
  vectorized :: bool

record funsor_fields =
  f_log_measure :: "funsor option"
  f_value :: funsor
  f_log_prob :: funsor
  f_scale :: funsor

record node =
  node_type :: string
  node_name :: string
  fn_type_name :: string
  node_value :: step
  infer_do_not_score :: "bool option"
  cond_indep_stack :: "frame list"
  node_funsor :: funsor_fields
  replay_active :: "bool option"
  replay_skipped :: "bool option"
  is_observed :: bool

type_synonym trace = "(string \<times> node) list"

text \<open>\<^verbatim>\<open>d.get(key, False)\<close>.\<close>

definition get_flag :: "bool option \<Rightarrow> bool" where
  "get_flag b = (case b of None \<Rightarrow> False | Some v \<Rightarrow> v)"

section \<open>The term bundle and its extraction\<close>

record terms =
  log_factors :: "funsor list"
  log_measures :: "funsor list"
  scale :: funsor
  plate_vars :: "string set"
  measure_vars :: "string set"
  plate_to_step :: "string \<rightharpoonup> step"

definition init_terms :: terms where
  "init_terms = \<lparr>log_factors = [], log_measures = [], scale = Number 1,
     plate_vars = {}, measure_vars = {}, plate_to_step = Map.empty\<rparr>"

text \<open>The test of lines 26 to 28: the record is passed over.\<close>

definition not_scored :: "node \<Rightarrow> bool" where
  "not_scored nd \<longleftrightarrow>
     node_type nd \<noteq> ''sample'' \<or> fn_type_name nd = ''_Subsample'' \<or>
     get_flag (infer_do_not_score nd)"

text \<open>The names of the vectorized frames of a stack (line 30).\<close>

definition stack_plates :: "node \<Rightarrow> string set" where
  "stack_plates nd = frame_name ` set (filter vectorized (cond_indep_stack nd))"

text \<open>
  The condition of lines 37 and 38, evaluated left to right: the scale is converted to
  a float only when the two conjuncts before it hold.
\<close>

definition common_scale_test :: "terms \<Rightarrow> node \<Rightarrow> error + bool" where
  "common_scale_test t nd =
     (if get_flag (replay_active nd) \<and>
         input_names (f_log_prob (node_funsor nd)) \<inter> measure_vars t \<noteq> {}
      then (case to_data_float (f_scale (node_funsor nd)) of
              Inl e \<Rightarrow> Inl e
            | Inr x \<Rightarrow> Inr (x \<noteq> 1))
      else Inr False)"

text \<open>Lines 44 and 45, on the record as lines 37 to 42 leave it.\<close>

definition add_log_factor :: "terms \<Rightarrow> node \<Rightarrow> terms" where
  "add_log_factor t nd =
     (if is_observed nd \<or> \<not> get_flag (replay_skipped nd)
      then t\<lparr>log_factors := log_factors t @ [f_log_prob (node_funsor nd)]\<rparr>
      else t)"

text \<open>
  One iteration of the loop of \<^verbatim>\<open>terms_from_trace\<close> (lines 23 to 45), on the
  bundle built so far, the key \<open>name\<close> and the record \<open>nd\<close>. It returns the bundle and
  the record as the iteration leaves them: line 42 assigns to
  \<^verbatim>\<open>node["funsor"]["log_prob"]\<close>. The conversion of the scale (line 38) and the
  product (line 42) can raise.
\<close>

definition site_update :: "terms \<Rightarrow> string \<Rightarrow> node \<Rightarrow> error + (terms \<times> node)" where
  "site_update t name nd =
     (let t1 = (if node_type nd = ''markov_chain''
                then t\<lparr>plate_to_step := (plate_to_step t)(node_name nd \<mapsto> node_value nd)\<rparr>
                else t)
      in if not_scored nd then Inr (t1, nd)
         else
           let t2 = t1\<lparr>plate_vars := plate_vars t1 \<union> stack_plates nd\<rparr>;
               t3 = (case f_log_measure (node_funsor nd) of
                       None \<Rightarrow> t2
                     | Some lm \<Rightarrow>
                         t2\<lparr>log_measures := log_measures t2 @ [lm],
                            measure_vars := measure_vars t2 \<union>
                              ((input_names (f_value (node_funsor nd)) \<union> {name}) - plate_vars t2)\<rparr>)
           in case common_scale_test t3 nd of
                Inl e \<Rightarrow> Inl e
              | Inr c \<Rightarrow>
                  if c then Inr (add_log_factor (t3\<lparr>scale := f_scale (node_funsor nd)\<rparr>) nd, nd)
                  else
                    (case mul_funsor (f_log_prob (node_funsor nd)) (f_scale (node_funsor nd)) of
                       Inl e \<Rightarrow> Inl e
                     | Inr log_prob \<Rightarrow>
                         let nd' = nd\<lparr>node_funsor := (node_funsor nd)\<lparr>f_log_prob := log_prob\<rparr>\<rparr>
                         in Inr (add_log_factor t3 nd', nd')))"

text \<open>The loop over \<^verbatim>\<open>tr.nodes.items()\<close>; an exception ends it.\<close>

fun trace_loop :: "terms \<Rightarrow> trace \<Rightarrow> error + (terms \<times> trace)" where
  "trace_loop t [] = Inr (t, [])"
| "trace_loop t ((name, nd) # rest) =
     (case site_update t name nd of
        Inl e \<Rightarrow> Inl e
      | Inr (t', nd') \<Rightarrow>
          (case trace_loop t' rest of
             Inl e \<Rightarrow> Inl e
           | Inr (t'', rest') \<Rightarrow> Inr (t'', (name, nd') # rest')))"

text \<open>
  Line 47: every plate of \<open>plate_vars\<close> gets an entry, the one it has or the empty
  step descriptor.
\<close>

definition add_plate_steps :: "terms \<Rightarrow> terms" where
  "add_plate_steps t =
     t\<lparr>plate_to_step := (\<lambda>p. if p \<in> plate_vars t
                              then Some (case plate_to_step t p of None \<Rightarrow> [] | Some s \<Rightarrow> s)
                              else plate_to_step t p)\<rparr>"

text \<open>
  \<^verbatim>\<open>terms_from_trace(tr)\<close>: the bundle, and the trace as the call leaves it.
\<close>

definition terms_from_trace :: "trace \<Rightarrow> error + (terms \<times> trace)" where
  "terms_from_trace tr =
     (case trace_loop init_terms tr of
        Inl e \<Rightarrow> Inl e
      | Inr (t, tr') \<Rightarrow> Inr (add_plate_steps t, tr'))"

section \<open>What a pass over a trace accumulates\<close>

text \<open>
  The sets that the loop has accumulated after a whole trace, stated site by site and
  not by running the loop. A prefix \<open>take (Suc i) tr\<close> of the trace holds the sites up to
  and including site \<open>i\<close>.
\<close>

definition plates_of :: "trace \<Rightarrow> string set" where
  "plates_of tr = (\<Union>nd \<in> set (filter (\<lambda>nd. \<not> not_scored nd) (map snd tr)). stack_plates nd)"

text \<open>A scored site that carries a log-measure.\<close>

definition measure_site :: "node \<Rightarrow> bool" where
  "measure_site nd \<longleftrightarrow> \<not> not_scored nd \<and> f_log_measure (node_funsor nd) \<noteq> None"

text \<open>
  The measure variables that site \<open>i\<close> contributes: the inputs of its value and its
  name, without the plates accumulated up to and including the site.
\<close>

definition site_measure_vars :: "trace \<Rightarrow> nat \<Rightarrow> string set" where
  "site_measure_vars tr i =
     (input_names (f_value (node_funsor (snd (tr ! i)))) \<union> {fst (tr ! i)})
       - plates_of (take (Suc i) tr)"

definition measure_of :: "trace \<Rightarrow> string set" where
  "measure_of tr =
     (\<Union>i \<in> set (filter (\<lambda>i. measure_site (snd (tr ! i))) [0..<length tr]). site_measure_vars tr i)"

text \<open>
  Site \<open>i\<close> reaches the conversion of its scale to a float: it is scored, replay-active,
  and the inputs of its log-probability meet the measure variables accumulated up to and
  including the site.
\<close>

definition reaches_scale_test :: "trace \<Rightarrow> nat \<Rightarrow> bool" where
  "reaches_scale_test tr i \<longleftrightarrow>
     \<not> not_scored (snd (tr ! i)) \<and> get_flag (replay_active (snd (tr ! i))) \<and>
     input_names (f_log_prob (node_funsor (snd (tr ! i)))) \<inter> measure_of (take (Suc i) tr) \<noteq> {}"

text \<open>Site \<open>i\<close> is a shared-scale candidate: it reaches the test and its scale is not 1.\<close>

definition scale_candidate :: "trace \<Rightarrow> nat \<Rightarrow> bool" where
  "scale_candidate tr i \<longleftrightarrow>
     reaches_scale_test tr i \<and>
     (case to_data_float (f_scale (node_funsor (snd (tr ! i)))) of
        Inl e \<Rightarrow> False
      | Inr x \<Rightarrow> x \<noteq> 1)"

text \<open>Site \<open>i\<close> reaches the test with a scale that does not convert to a float.\<close>

definition scale_unreadable :: "trace \<Rightarrow> nat \<Rightarrow> bool" where
  "scale_unreadable tr i \<longleftrightarrow>
     reaches_scale_test tr i \<and> isl (to_data_float (f_scale (node_funsor (snd (tr ! i)))))"

text \<open>
  Site \<open>i\<close> is scored and no candidate, and the product of its log-probability and its
  scale cannot be computed.
\<close>

definition product_fails :: "trace \<Rightarrow> nat \<Rightarrow> bool" where
  "product_fails tr i \<longleftrightarrow>
     \<not> not_scored (snd (tr ! i)) \<and> \<not> scale_candidate tr i \<and>
     \<not> inputs_agree (f_log_prob (node_funsor (snd (tr ! i)))) (f_scale (node_funsor (snd (tr ! i))))"

text \<open>The iteration at site \<open>i\<close> raises.\<close>

definition site_fails :: "trace \<Rightarrow> nat \<Rightarrow> bool" where
  "site_fails tr i \<longleftrightarrow> scale_unreadable tr i \<or> product_fails tr i"

text \<open>The indices of the shared-scale candidates, in trace order.\<close>

definition candidates :: "trace \<Rightarrow> nat list" where
  "candidates tr = filter (scale_candidate tr) [0..<length tr]"

text \<open>The record of a site with its scale multiplied into its log-probability.\<close>

definition scaled_node :: "node \<Rightarrow> node" where
  "scaled_node nd =
     nd\<lparr>node_funsor := (node_funsor nd)\<lparr>f_log_prob :=
        Binary Mul (f_log_prob (node_funsor nd)) (f_scale (node_funsor nd))\<rparr>\<rparr>"

text \<open>A scored site whose log-probability goes to \<open>log_factors\<close> (line 44).\<close>

definition factor_site :: "node \<Rightarrow> bool" where
  "factor_site nd \<longleftrightarrow> \<not> not_scored nd \<and> (is_observed nd \<or> \<not> get_flag (replay_skipped nd))"

text \<open>The trace as a pass leaves it, stated site by site.\<close>

definition trace_after :: "trace \<Rightarrow> trace" where
  "trace_after tr =
     map (\<lambda>i. if not_scored (snd (tr ! i)) \<or> scale_candidate tr i then tr ! i
               else (fst (tr ! i), scaled_node (snd (tr ! i))))
       [0..<length tr]"

text \<open>
  The step descriptors that the \<^verbatim>\<open>markov_chain\<close> records of a trace register: for
  each name, the value of the last record of that name.
\<close>

definition markov_steps :: "trace \<Rightarrow> string \<rightharpoonup> step" where
  "markov_steps tr =
     map_of (rev (map (\<lambda>nd. (node_name nd, node_value nd))
                   (filter (\<lambda>nd. node_type nd = ''markov_chain'') (map snd tr))))"

text \<open>The log-measures of the scored sites, in trace order.\<close>

definition site_log_measures :: "trace \<Rightarrow> funsor list" where
  "site_log_measures tr =
     concat (map (\<lambda>nd. if not_scored nd then []
                        else (case f_log_measure (node_funsor nd) of None \<Rightarrow> [] | Some lm \<Rightarrow> [lm]))
              (map snd tr))"

text \<open>
  The same quantities for one iteration, on the bundle \<open>t\<close> that the iteration starts
  from: the measure variables after lines 32 to 35, and the test of lines 37 and 38.
\<close>

definition step_measure :: "terms \<Rightarrow> string \<Rightarrow> node \<Rightarrow> string set" where
  "step_measure t name nd = measure_vars t \<union>
     (if measure_site nd
      then (input_names (f_value (node_funsor nd)) \<union> {name}) - (plate_vars t \<union> stack_plates nd)
      else {})"

definition step_reaches :: "terms \<Rightarrow> string \<Rightarrow> node \<Rightarrow> bool" where
  "step_reaches t name nd \<longleftrightarrow> \<not> not_scored nd \<and> get_flag (replay_active nd) \<and>
     input_names (f_log_prob (node_funsor nd)) \<inter> step_measure t name nd \<noteq> {}"

definition step_candidate :: "terms \<Rightarrow> string \<Rightarrow> node \<Rightarrow> bool" where
  "step_candidate t name nd \<longleftrightarrow> step_reaches t name nd \<and>
     (case to_data_float (f_scale (node_funsor nd)) of Inl e \<Rightarrow> False | Inr x \<Rightarrow> x \<noteq> 1)"

section \<open>The sum-product engine\<close>

text \<open>
  The functions of the funsor library that the two losses call are parameters of the
  model: \<^verbatim>\<open>funsor.sum_product.partial_sum_product\<close>,
  \<^verbatim>\<open>modified_partial_sum_product\<close> and \<^verbatim>\<open>sum_product\<close> (sum operation, product
  operation, factors, then the keyword arguments in the order the module writes them),
  the adjoint of a tape (the values of the dictionary it returns, one marginal per
  target), the optimizer and the conversion of the final funsor to data.
\<close>

record engine =
  partial_sum_product :: "bin_op \<Rightarrow> bin_op \<Rightarrow> funsor list \<Rightarrow> string set \<Rightarrow> string set \<Rightarrow> funsor list"
  modified_partial_sum_product ::
    "bin_op \<Rightarrow> bin_op \<Rightarrow> funsor list \<Rightarrow> (string \<rightharpoonup> step) \<Rightarrow> string set \<Rightarrow> funsor list"
  sum_product :: "bin_op \<Rightarrow> bin_op \<Rightarrow> funsor list \<Rightarrow> string set \<Rightarrow> string set \<Rightarrow> funsor"
  adjoint :: "bin_op \<Rightarrow> bin_op \<Rightarrow> funsor \<Rightarrow> funsor list \<Rightarrow> funsor list"
  apply_optimizer :: "funsor \<Rightarrow> funsor"
  to_data :: "funsor \<Rightarrow> real"

text \<open>
  A loss returns, with its value, the calls it made to the engine, in order, each with
  its arguments.
\<close>

datatype call =
    Call_partial_sum_product bin_op bin_op "funsor list" "string set" "string set"
  | Call_modified_partial_sum_product bin_op bin_op "funsor list" "string \<rightharpoonup> step" "string set"
  | Call_sum_product bin_op bin_op "funsor list" "string set" "string set"
  | Call_adjoint bin_op bin_op funsor "funsor list"

text \<open>The \<^verbatim>\<open>eliminate\<close> argument of a call.\<close>

fun eliminate_of :: "call \<Rightarrow> string set option" where
  "eliminate_of (Call_partial_sum_product s p fs plates el) = Some el"
| "eliminate_of (Call_modified_partial_sum_product s p fs pts el) = Some el"
| "eliminate_of (Call_sum_product s p fs plates el) = Some el"
| "eliminate_of (Call_adjoint s p logzq targets) = None"

section \<open>The costs of the two losses\<close>

text \<open>
  Lines 69 to 74 and 143 to 148: the factors of the model that mention a measure
  variable are contracted, the others are not.
\<close>

definition contracted_factors :: "terms \<Rightarrow> funsor list" where
  "contracted_factors mt = filter (\<lambda>f. measure_vars mt \<inter> input_names f \<noteq> {}) (log_factors mt)"

definition uncontracted_factors :: "terms \<Rightarrow> funsor list" where
  "uncontracted_factors mt = filter (\<lambda>f. \<not> (measure_vars mt \<inter> input_names f \<noteq> {})) (log_factors mt)"

text \<open>Lines 76, 77 and 89: the plates whose step descriptor is not empty.\<close>

definition markov_dims :: "terms \<Rightarrow> string set" where
  "markov_dims t = {p. \<exists>s. plate_to_step t p = Some s \<and> s \<noteq> []}"

section \<open>\<^verbatim>\<open>TraceEnum_ELBO.differentiable_loss\<close>\<close>

text \<open>Lines 150 to 154.\<close>

definition enum_contracted_costs :: "engine \<Rightarrow> terms \<Rightarrow> funsor list \<times> call list" where
  "enum_contracted_costs eng mt =
     (let factors = log_measures mt @ contracted_factors mt
      in (map (Binary Mul (scale mt))
            (partial_sum_product eng Logaddexp Add factors (plate_vars mt) (measure_vars mt)),
          [Call_partial_sum_product Logaddexp Add factors (plate_vars mt) (measure_vars mt)]))"

text \<open>Lines 156 and 157.\<close>

definition enum_costs :: "engine \<Rightarrow> terms \<Rightarrow> terms \<Rightarrow> funsor list \<times> call list" where
  "enum_costs eng gt mt =
     (case enum_contracted_costs eng mt of
        (contracted_costs, calls) \<Rightarrow>
          (contracted_costs @ uncontracted_factors mt @ map (Unary Neg) (log_factors gt), calls))"

text \<open>The body of the loop of lines 162 to 172, for one cost.\<close>

definition enum_elbo_term :: "engine \<Rightarrow> terms \<Rightarrow> string set \<Rightarrow> funsor \<Rightarrow> funsor \<times> call list" where
  "enum_elbo_term eng gt pvars cost =
     (let eliminate = (pvars \<union> measure_vars gt) - input_names cost;
          log_prob = sum_product eng Logaddexp Add (log_measures gt) pvars eliminate;
          elbo_term = Integrate log_prob cost (measure_vars gt \<inter> input_names cost)
      in (Reduce Add elbo_term (pvars \<inter> input_names cost),
          [Call_sum_product Logaddexp Add (log_measures gt) pvars eliminate]))"

fun enum_elbo_loop ::
  "engine \<Rightarrow> terms \<Rightarrow> string set \<Rightarrow> funsor \<times> call list \<Rightarrow> funsor list \<Rightarrow> funsor \<times> call list" where
  "enum_elbo_loop eng gt pvars (elbo, calls) [] = (elbo, calls)"
| "enum_elbo_loop eng gt pvars (elbo, calls) (cost # costs) =
     (case enum_elbo_term eng gt pvars cost of
        (contribution, calls') \<Rightarrow>
          enum_elbo_loop eng gt pvars (Binary Add elbo contribution, calls @ calls') costs)"

text \<open>
  The loss from the two traces (lines 137 to 176): what the call returns or raises,
  and the calls it made to the engine.
\<close>

definition TraceEnum_ELBO_loss :: "engine \<Rightarrow> trace \<Rightarrow> trace \<Rightarrow> (error + real) \<times> call list" where
  "TraceEnum_ELBO_loss eng guide_tr model_tr =
     (case terms_from_trace guide_tr of
        Inl e \<Rightarrow> (Inl e, [])
      | Inr (gt, guide_tr') \<Rightarrow>
          (case terms_from_trace model_tr of
             Inl e \<Rightarrow> (Inl e, [])
           | Inr (mt, model_tr') \<Rightarrow>
               (case enum_costs eng gt mt of
                  (costs, calls) \<Rightarrow>
                    (case enum_elbo_loop eng gt (plate_vars gt \<union> plate_vars mt) (Number 0, calls) costs of
                       (elbo, calls') \<Rightarrow> (Inr (- to_data eng (apply_optimizer eng elbo)), calls')))))"

section \<open>\<^verbatim>\<open>TraceMarkovEnum_ELBO.differentiable_loss\<close>\<close>

text \<open>Lines 76 to 83.\<close>

definition markov_contracted_costs :: "engine \<Rightarrow> terms \<Rightarrow> funsor list \<times> call list" where
  "markov_contracted_costs eng mt =
     (let factors = log_measures mt @ contracted_factors mt;
          eliminate = measure_vars mt \<union> markov_dims mt
      in (map (Binary Mul (scale mt))
            (modified_partial_sum_product eng Logaddexp Add factors (plate_to_step mt) eliminate),
          [Call_modified_partial_sum_product Logaddexp Add factors (plate_to_step mt) eliminate]))"

text \<open>Lines 85 and 86.\<close>

definition markov_costs :: "engine \<Rightarrow> terms \<Rightarrow> terms \<Rightarrow> funsor list" where
  "markov_costs eng gt mt =
     fst (markov_contracted_costs eng mt) @ uncontracted_factors mt @ map (Unary Neg) (log_factors gt)"

text \<open>Lines 94 and 95: a tensor of zeros with the inputs of the cost.\<close>

definition probe :: "funsor \<Rightarrow> funsor" where
  "probe cost = Tensor (inputs cost) (replicate (prod_list (map (\<lambda>kv. dom_size (snd kv)) (inputs cost))) 0)"

text \<open>Lines 92 to 97.\<close>

definition markov_targets :: "engine \<Rightarrow> terms \<Rightarrow> terms \<Rightarrow> funsor list" where
  "markov_targets eng gt mt =
     map probe (fst (markov_contracted_costs eng mt) @ uncontracted_factors mt) @ log_measures gt"

text \<open>Python's \<^verbatim>\<open>sum\<close>: the terms added from the left, starting from 0.\<close>

definition py_sum :: "funsor list \<Rightarrow> funsor" where
  "py_sum fs = foldl (Binary Add) (Number 0) fs"

text \<open>Lines 98 to 108: the marginals, and the two calls that give them.\<close>

definition markov_log_qs :: "engine \<Rightarrow> terms \<Rightarrow> terms \<Rightarrow> funsor list \<times> call list" where
  "markov_log_qs eng gt mt =
     (let targets = markov_targets eng gt mt;
          eliminate = measure_vars gt \<union> markov_dims gt;
          logzq = py_sum (modified_partial_sum_product eng Logaddexp Add targets (plate_to_step gt) eliminate);
          logzq' = apply_optimizer eng logzq
      in (adjoint eng Logaddexp Add logzq' targets,
          [Call_modified_partial_sum_product Logaddexp Add targets (plate_to_step gt) eliminate,
           Call_adjoint Logaddexp Add logzq' targets]))"

text \<open>
  Line 114: the first marginal whose inputs are those of the cost;
  \<^verbatim>\<open>next\<close> raises \<^verbatim>\<open>StopIteration\<close> when there is none.
\<close>

definition lookup_marginal :: "funsor list \<Rightarrow> funsor \<Rightarrow> error + funsor" where
  "lookup_marginal log_qs cost =
     (case find (\<lambda>log_q. dict_eq (inputs log_q) (inputs cost)) log_qs of
        None \<Rightarrow> Inl StopIteration
      | Some log_q \<Rightarrow> Inr log_q)"

text \<open>Lines 116 to 118, for one cost and its marginal.\<close>

definition markov_elbo_term :: "terms \<Rightarrow> funsor \<Rightarrow> funsor \<Rightarrow> funsor" where
  "markov_elbo_term gt log_prob cost =
     (let elbo_term = Integrate log_prob cost (input_names cost - dom (plate_to_step gt))
      in Reduce Add elbo_term (input_names elbo_term))"

text \<open>The loop of lines 112 to 118.\<close>

fun markov_elbo_loop :: "terms \<Rightarrow> funsor list \<Rightarrow> funsor \<Rightarrow> funsor list \<Rightarrow> error + funsor" where
  "markov_elbo_loop gt log_qs elbo [] = Inr elbo"
| "markov_elbo_loop gt log_qs elbo (cost # costs) =
     (case lookup_marginal log_qs cost of
        Inl e \<Rightarrow> Inl e
      | Inr log_prob \<Rightarrow>
          markov_elbo_loop gt log_qs (Binary Add elbo (markov_elbo_term gt log_prob cost)) costs)"

text \<open>
  The loss from the two traces (lines 63 to 122): what the call returns or raises, and
  the calls it made to the engine. The engine is called before the loop of line 112,
  so a failure of that loop comes with the three calls.
\<close>

definition TraceMarkovEnum_ELBO_loss :: "engine \<Rightarrow> trace \<Rightarrow> trace \<Rightarrow> (error + real) \<times> call list" where
  "TraceMarkovEnum_ELBO_loss eng guide_tr model_tr =
     (case terms_from_trace guide_tr of
        Inl e \<Rightarrow> (Inl e, [])
      | Inr (gt, guide_tr') \<Rightarrow>
          (case terms_from_trace model_tr of
             Inl e \<Rightarrow> (Inl e, [])
           | Inr (mt, model_tr') \<Rightarrow>
               (case markov_log_qs eng gt mt of
                  (log_qs, calls) \<Rightarrow>
                    ((case markov_elbo_loop gt log_qs (Number 0) (markov_costs eng gt mt) of
                        Inl e \<Rightarrow> Inl e
                      | Inr elbo \<Rightarrow> Inr (- to_data eng (apply_optimizer eng elbo))),
                     snd (markov_contracted_costs eng mt) @ calls))))"

section \<open>Example traces\<close>

text \<open>A sample record with the fields that the examples vary.\<close>

definition sample_node :: "string \<Rightarrow> frame list \<Rightarrow> funsor_fields \<Rightarrow> bool option \<Rightarrow> bool option \<Rightarrow> bool \<Rightarrow> node" where
  "sample_node name stack ff active skipped observed =
     \<lparr>node_type = ''sample'', node_name = name, fn_type_name = ''Categorical'', node_value = [],
      infer_do_not_score = None, cond_indep_stack = stack, node_funsor = ff,
      replay_active = active, replay_skipped = skipped, is_observed = observed\<rparr>"

text \<open>
  A model trace: an enumerated site \<open>z\<close>, then two observed sites that depend on \<open>z\<close>,
  with scales 2 and 3.
\<close>

definition two_scale_trace :: trace where
  "two_scale_trace =
     [(''z'', sample_node ''z'' []
         \<lparr>f_log_measure = Some (Tensor [(''z'', Bint 2)] [1, 2]), f_value = Tensor [(''z'', Bint 2)] [0, 1],
          f_log_prob = Tensor [(''z'', Bint 2)] [1, 2], f_scale = Number 1\<rparr>
         (Some True) None False),
      (''x'', sample_node ''x'' []
         \<lparr>f_log_measure = None, f_value = Number 5,
          f_log_prob = Tensor [(''z'', Bint 2)] [3, 4], f_scale = Number 2\<rparr>
         (Some True) None True),
      (''y'', sample_node ''y'' []
         \<lparr>f_log_measure = None, f_value = Number 7,
          f_log_prob = Tensor [(''z'', Bint 2)] [5, 6], f_scale = Number 3\<rparr>
         (Some True) None True)]"

text \<open>A trace of one observed site with scale 2, not replayed.\<close>

definition scaled_site_trace :: trace where
  "scaled_site_trace =
     [(''x'', sample_node ''x'' []
         \<lparr>f_log_measure = None, f_value = Number 5,
          f_log_prob = Number 3, f_scale = Number 2\<rparr>
         None None True)]"

text \<open>A trace of one observed site with scale 2 that is marked do-not-score.\<close>

definition unscored_site_trace :: trace where
  "unscored_site_trace =
     [(''x'', (sample_node ''x'' []
         \<lparr>f_log_measure = None, f_value = Number 5,
          f_log_prob = Number 3, f_scale = Number 2\<rparr>
         None None True)\<lparr>infer_do_not_score := Some True\<rparr>)]"

text \<open>A record of type \<^verbatim>\<open>markov_chain\<close> with its step descriptor.\<close>

definition markov_chain_node :: "string \<Rightarrow> step \<Rightarrow> node" where
  "markov_chain_node name st =
     \<lparr>node_type = ''markov_chain'', node_name = name, fn_type_name = ''NoneType'', node_value = st,
      infer_do_not_score = None, cond_indep_stack = [],
      node_funsor = \<lparr>f_log_measure = None, f_value = Number 0, f_log_prob = Number 0, f_scale = Number 1\<rparr>,
      replay_active = None, replay_skipped = None, is_observed = False\<rparr>"

text \<open>
  A trace with a sequential plate \<open>time\<close> and an ordinary plate \<open>data\<close>: the
  \<^verbatim>\<open>markov_chain\<close> record of \<open>time\<close>, an enumerated site and an observed site in both
  plates, and a latent site in \<open>data\<close> that the replay skipped.
\<close>

definition markov_trace :: trace where
  "markov_trace =
     [(''time'', markov_chain_node ''time'' [[''x_prev'', ''x_curr'']]),
      (''x_curr'', sample_node ''x_curr''
         [\<lparr>frame_name = ''time'', vectorized = True\<rparr>, \<lparr>frame_name = ''data'', vectorized = True\<rparr>]
         \<lparr>f_log_measure = Some (Tensor [(''x_curr'', Bint 2)] [1, 2]),
          f_value = Tensor [(''x_curr'', Bint 2)] [0, 1],
          f_log_prob = Tensor [(''x_curr'', Bint 2)] [1, 2], f_scale = Number 1\<rparr>
         None None False),
      (''y'', sample_node ''y''
         [\<lparr>frame_name = ''time'', vectorized = True\<rparr>, \<lparr>frame_name = ''data'', vectorized = True\<rparr>]
         \<lparr>f_log_measure = None, f_value = Number 5,
          f_log_prob = Tensor [(''x_curr'', Bint 2)] [3, 4], f_scale = Number 1\<rparr>
         None None True),
      (''w'', sample_node ''w'' [\<lparr>frame_name = ''data'', vectorized = True\<rparr>]
         \<lparr>f_log_measure = None, f_value = Number 6,
          f_log_prob = Number 8, f_scale = Number 1\<rparr>
         None (Some True) False)]"

text \<open>The bundle of a trace, field by field, from the site-by-site statements.\<close>

definition bundle_of :: "trace \<Rightarrow> terms" where
  "bundle_of tr =
     \<lparr>log_factors = map (\<lambda>nd. f_log_prob (node_funsor nd)) (filter factor_site (map snd (trace_after tr))),
      log_measures = site_log_measures tr,
      scale = last (Number 1 # map (\<lambda>i. f_scale (node_funsor (snd (tr ! i)))) (candidates tr)),
      plate_vars = plates_of tr,
      measure_vars = measure_of tr,
      plate_to_step = (\<lambda>p. if p \<in> plates_of tr
                            then Some (case markov_steps tr p of None \<Rightarrow> [] | Some s \<Rightarrow> s)
                            else markov_steps tr p)\<rparr>"

section \<open>An engine and a pair of traces for the examples\<close>

text \<open>
  An engine for the examples. Its sum-product functions return the term that reduces
  the product of the factors over the variables to eliminate (no residual factor when
  there is no factor); its adjoint gives each target a marginal with the inputs of the
  target; the optimizer is the identity and every funsor evaluates to 0.
\<close>

definition naive_engine :: engine where
  "naive_engine =
     \<lparr>partial_sum_product =
        (\<lambda>s p fs plates el. if fs = [] then [] else [Reduce s (foldl (Binary p) (Number 0) fs) el]),
      modified_partial_sum_product =
        (\<lambda>s p fs steps el. if fs = [] then [] else [Reduce s (foldl (Binary p) (Number 0) fs) el]),
      sum_product = (\<lambda>s p fs plates el. Reduce s (foldl (Binary p) (Number 0) fs) el),
      adjoint = (\<lambda>s p logzq targets. targets),
      apply_optimizer = (\<lambda>f. f),
      to_data = (\<lambda>f. 0)\<rparr>"

text \<open>
  A guide with one enumerated site \<open>z\<close> in the plate \<open>data\<close>, and the model replayed
  against it: the site \<open>z\<close>, and an observed site \<open>x\<close> outside the plate.
\<close>

definition plate_guide_trace :: trace where
  "plate_guide_trace =
     [(''z'', sample_node ''z'' [\<lparr>frame_name = ''data'', vectorized = True\<rparr>]
         \<lparr>f_log_measure = Some (Tensor [(''data'', Bint 2), (''z'', Bint 2)] [1, 2, 3, 4]),
          f_value = Tensor [(''z'', Bint 2)] [0, 1],
          f_log_prob = Tensor [(''data'', Bint 2), (''z'', Bint 2)] [1, 2, 3, 4],
          f_scale = Number 1\<rparr>
         None None False)]"

definition plate_model_trace :: trace where
  "plate_model_trace =
     [(''z'', sample_node ''z'' [\<lparr>frame_name = ''data'', vectorized = True\<rparr>]
         \<lparr>f_log_measure = None,
          f_value = Tensor [(''z'', Bint 2)] [0, 1],
          f_log_prob = Tensor [(''z'', Bint 2)] [5, 6],
          f_scale = Number 1\<rparr>
         (Some True) (Some False) False),
      (''x'', sample_node ''x'' []
         \<lparr>f_log_measure = None, f_value = Number 9,
          f_log_prob = Tensor [] [7], f_scale = Number 1\<rparr>
         (Some True) None True)]"

text \<open>
  A model with two observed sites outside every plate and without latent site; its
  guide has no site. Both costs have no input.
\<close>

definition two_observed_trace :: trace where
  "two_observed_trace =
     [(''x'', sample_node ''x'' []
         \<lparr>f_log_measure = None, f_value = Number 1,
          f_log_prob = Tensor [] [3], f_scale = Number 1\<rparr>
         (Some True) None True),
      (''y'', sample_node ''y'' []
         \<lparr>f_log_measure = None, f_value = Number 2,
          f_log_prob = Tensor [] [4], f_scale = Number 1\<rparr>
         (Some True) None True)]"

section \<open>Properties of one iteration\<close>

lemma site_update_not_scored:
  "not_scored nd \<Longrightarrow> site_update t name nd =
     Inr (if node_type nd = ''markov_chain''
          then t\<lparr>plate_to_step := (plate_to_step t)(node_name nd \<mapsto> node_value nd)\<rparr>
          else t, nd)"
  by (simp add: site_update_def)

lemma site_update_plate_vars:
  "site_update t name nd = Inr (t', nd') \<Longrightarrow>
   plate_vars t' = plate_vars t \<union> (if not_scored nd then {} else stack_plates nd)"
  by (auto simp: site_update_def mul_funsor_def add_log_factor_def Let_def split: if_splits option.splits sum.splits)

lemma site_update_measure_vars:
  "site_update t name nd = Inr (t', nd') \<Longrightarrow>
   measure_vars t' = measure_vars t \<union>
     (if measure_site nd
      then (input_names (f_value (node_funsor nd)) \<union> {name}) - (plate_vars t \<union> stack_plates nd)
      else {})"
  by (auto simp: site_update_def mul_funsor_def add_log_factor_def measure_site_def Let_def split: if_splits option.splits sum.splits)

lemma site_update_log_measures:
  "site_update t name nd = Inr (t', nd') \<Longrightarrow>
   log_measures t' = log_measures t @
     (if not_scored nd then [] else (case f_log_measure (node_funsor nd) of None \<Rightarrow> [] | Some lm \<Rightarrow> [lm]))"
  by (auto simp: site_update_def mul_funsor_def add_log_factor_def Let_def split: if_splits option.splits sum.splits)

lemma site_update_fails:
  "isl (site_update t name nd) \<longleftrightarrow>
   step_reaches t name nd \<and> isl (to_data_float (f_scale (node_funsor nd))) \<or>
   \<not> not_scored nd \<and> \<not> step_candidate t name nd \<and>
   \<not> inputs_agree (f_log_prob (node_funsor nd)) (f_scale (node_funsor nd))"
  by (auto simp: site_update_def mul_funsor_def add_log_factor_def step_candidate_def step_reaches_def step_measure_def measure_site_def
      common_scale_test_def mul_funsor_def Let_def split: if_splits option.splits sum.splits)

lemma site_update_scale:
  "site_update t name nd = Inr (t', nd') \<Longrightarrow>
   scale t' = (if step_candidate t name nd then f_scale (node_funsor nd) else scale t)"
  by (auto simp: site_update_def mul_funsor_def add_log_factor_def step_candidate_def step_reaches_def step_measure_def measure_site_def
      common_scale_test_def Let_def split: if_splits option.splits sum.splits)

lemma site_update_node:
  "site_update t name nd = Inr (t', nd') \<Longrightarrow>
   nd' = (if not_scored nd \<or> step_candidate t name nd then nd else scaled_node nd)"
  by (auto simp: site_update_def mul_funsor_def add_log_factor_def step_candidate_def step_reaches_def step_measure_def measure_site_def
      scaled_node_def common_scale_test_def Let_def split: if_splits option.splits sum.splits)

lemma site_update_log_factors:
  "site_update t name nd = Inr (t', nd') \<Longrightarrow>
   log_factors t' = log_factors t @ (if factor_site nd then [f_log_prob (node_funsor nd')] else [])"
  by (auto simp: site_update_def mul_funsor_def add_log_factor_def factor_site_def
      common_scale_test_def Let_def split: if_splits option.splits sum.splits)

lemma site_update_plate_to_step:
  "site_update t name nd = Inr (t', nd') \<Longrightarrow>
   plate_to_step t' = (if node_type nd = ''markov_chain''
       then (plate_to_step t)(node_name nd \<mapsto> node_value nd) else plate_to_step t)"
  by (auto simp: site_update_def mul_funsor_def add_log_factor_def Let_def split: if_splits option.splits sum.splits)

section \<open>Properties of the loop\<close>

lemma trace_loop_append:
  "trace_loop t (xs @ ys) =
     (case trace_loop t xs of
        Inl e \<Rightarrow> Inl e
      | Inr (t1, xs') \<Rightarrow>
          (case trace_loop t1 ys of
             Inl e \<Rightarrow> Inl e
           | Inr (t2, ys') \<Rightarrow> Inr (t2, xs' @ ys')))"
  by (induction xs arbitrary: t) (auto split: sum.splits prod.splits)

lemma trace_loop_snoc:
  "trace_loop t (xs @ [(name, nd)]) = Inr (t', tr') \<longleftrightarrow>
   (\<exists>t1 xs' nd'. trace_loop t xs = Inr (t1, xs') \<and> site_update t1 name nd = Inr (t', nd') \<and>
      tr' = xs' @ [(name, nd')])"
  by (auto simp: trace_loop_append split: sum.splits prod.splits)

subsection \<open>The accumulated sets, one site more\<close>

lemma plates_of_snoc:
  "plates_of (xs @ [(name, nd)]) = plates_of xs \<union> (if not_scored nd then {} else stack_plates nd)"
  by (auto simp: plates_of_def)

lemma site_measure_vars_prefix:
  "i < length xs \<Longrightarrow> site_measure_vars (xs @ ys) i = site_measure_vars xs i"
  by (simp add: site_measure_vars_def nth_append)

lemma site_measure_vars_last:
  "site_measure_vars (xs @ [(name, nd)]) (length xs) =
     (input_names (f_value (node_funsor nd)) \<union> {name}) - plates_of (xs @ [(name, nd)])"
  by (simp add: site_measure_vars_def)

lemma measure_of_snoc:
  "measure_of (xs @ [(name, nd)]) = measure_of xs \<union>
     (if measure_site nd
      then (input_names (f_value (node_funsor nd)) \<union> {name}) - plates_of (xs @ [(name, nd)])
      else {})"
proof -
  let ?ys = "xs @ [(name, nd)]"
  have old: "(\<Union>i \<in> set (filter (\<lambda>i. measure_site (snd (?ys ! i))) [0..<length xs]).
               site_measure_vars ?ys i) = measure_of xs"
    by (auto simp: measure_of_def nth_append site_measure_vars_prefix)
  have "measure_of ?ys =
      (\<Union>i \<in> set (filter (\<lambda>i. measure_site (snd (?ys ! i))) [0..<length xs]).
               site_measure_vars ?ys i) \<union>
      (if measure_site nd then site_measure_vars ?ys (length xs) else {})"
    by (simp add: measure_of_def)
  then show ?thesis
    by (simp only: old site_measure_vars_last)
qed

lemma reaches_scale_test_prefix:
  "i < length xs \<Longrightarrow> reaches_scale_test (xs @ ys) i = reaches_scale_test xs i"
  by (simp add: reaches_scale_test_def nth_append)

lemma scale_candidate_prefix:
  "i < length xs \<Longrightarrow> scale_candidate (xs @ ys) i = scale_candidate xs i"
  by (simp add: scale_candidate_def reaches_scale_test_prefix nth_append)

lemma scale_unreadable_prefix:
  "i < length xs \<Longrightarrow> scale_unreadable (xs @ ys) i = scale_unreadable xs i"
  by (simp add: scale_unreadable_def reaches_scale_test_prefix nth_append)

lemma site_fails_prefix:
  "i < length xs \<Longrightarrow> site_fails (xs @ ys) i = site_fails xs i"
  by (simp add: site_fails_def product_fails_def scale_unreadable_prefix scale_candidate_prefix nth_append)

lemma candidates_snoc:
  "candidates (xs @ [x]) =
     candidates xs @ (if scale_candidate (xs @ [x]) (length xs) then [length xs] else [])"
proof -
  have "filter (scale_candidate (xs @ [x])) [0..<length xs] = filter (scale_candidate xs) [0..<length xs]"
    by (rule filter_cong) (simp_all add: scale_candidate_prefix)
  then show ?thesis by (simp add: candidates_def)
qed

subsection \<open>The bundle after a trace\<close>

lemma loop_plate_vars:
  "trace_loop init_terms tr = Inr (t, tr') \<Longrightarrow> plate_vars t = plates_of tr"
proof (induction tr arbitrary: t tr' rule: rev_induct)
  case Nil
  then show ?case by (auto simp: init_terms_def plates_of_def)
next
  case (snoc x xs)
  obtain name nd where x: "x = (name, nd)" by (cases x)
  from snoc.prems obtain t1 xs' nd' where
    pre: "trace_loop init_terms xs = Inr (t1, xs')" and
    upd: "site_update t1 name nd = Inr (t, nd')"
    unfolding x trace_loop_snoc by blast
  show ?case
    using snoc.IH [OF pre] site_update_plate_vars [OF upd]
    by (simp add: x plates_of_snoc)
qed

lemma loop_measure_vars:
  "trace_loop init_terms tr = Inr (t, tr') \<Longrightarrow> measure_vars t = measure_of tr"
proof (induction tr arbitrary: t tr' rule: rev_induct)
  case Nil
  then show ?case by (auto simp: init_terms_def measure_of_def)
next
  case (snoc x xs)
  obtain name nd where x: "x = (name, nd)" by (cases x)
  from snoc.prems obtain t1 xs' nd' where
    pre: "trace_loop init_terms xs = Inr (t1, xs')" and
    upd: "site_update t1 name nd = Inr (t, nd')"
    unfolding x trace_loop_snoc by blast
  show ?case
    using snoc.IH [OF pre] site_update_measure_vars [OF upd] loop_plate_vars [OF pre]
    by (auto simp: x measure_of_snoc plates_of_snoc measure_site_def)
qed

text \<open>What an iteration tests is what the site-by-site statement says.\<close>

lemma step_measure_eq:
  "trace_loop init_terms xs = Inr (t1, xs') \<Longrightarrow>
   step_measure t1 name nd = measure_of (xs @ [(name, nd)])"
  by (auto simp: step_measure_def measure_of_snoc plates_of_snoc loop_plate_vars loop_measure_vars
      measure_site_def)

lemma step_reaches_eq:
  "trace_loop init_terms xs = Inr (t1, xs') \<Longrightarrow>
   step_reaches t1 name nd = reaches_scale_test (xs @ [(name, nd)]) (length xs)"
  by (simp add: step_reaches_def reaches_scale_test_def step_measure_eq)

lemma step_candidate_eq:
  "trace_loop init_terms xs = Inr (t1, xs') \<Longrightarrow>
   step_candidate t1 name nd = scale_candidate (xs @ [(name, nd)]) (length xs)"
  by (simp add: step_candidate_def scale_candidate_def step_reaches_eq)

lemma trace_after_snoc:
  "trace_after (xs @ [(name, nd)]) = trace_after xs @
     [if not_scored nd \<or> scale_candidate (xs @ [(name, nd)]) (length xs) then (name, nd)
      else (name, scaled_node nd)]"
proof -
  have "map (\<lambda>i. if not_scored (snd ((xs @ [(name, nd)]) ! i)) \<or> scale_candidate (xs @ [(name, nd)]) i
                  then (xs @ [(name, nd)]) ! i
                  else (fst ((xs @ [(name, nd)]) ! i), scaled_node (snd ((xs @ [(name, nd)]) ! i))))
          [0..<length xs] = trace_after xs"
    unfolding trace_after_def
    by (rule map_cong) (simp_all add: nth_append scale_candidate_prefix)
  then show ?thesis
    by (simp add: trace_after_def)
qed

lemma loop_scale:
  "trace_loop init_terms tr = Inr (t, tr') \<Longrightarrow>
   scale t = last (Number 1 # map (\<lambda>i. f_scale (node_funsor (snd (tr ! i)))) (candidates tr))"
proof (induction tr arbitrary: t tr' rule: rev_induct)
  case Nil
  then show ?case by (auto simp: init_terms_def candidates_def)
next
  case (snoc x xs)
  obtain name nd where x: "x = (name, nd)" by (cases x)
  from snoc.prems obtain t1 xs' nd' where
    pre: "trace_loop init_terms xs = Inr (t1, xs')" and
    upd: "site_update t1 name nd = Inr (t, nd')"
    unfolding x trace_loop_snoc by blast
  have old: "map (\<lambda>i. f_scale (node_funsor (snd ((xs @ [(name, nd)]) ! i)))) (candidates xs) =
             map (\<lambda>i. f_scale (node_funsor (snd (xs ! i)))) (candidates xs)"
    by (rule map_cong) (auto simp: candidates_def nth_append)
  show ?case
    using snoc.IH [OF pre] site_update_scale [OF upd] step_candidate_eq [OF pre, of name nd]
    by (simp add: x candidates_snoc old)
qed

lemma loop_trace:
  "trace_loop init_terms tr = Inr (t, tr') \<Longrightarrow> tr' = trace_after tr"
proof (induction tr arbitrary: t tr' rule: rev_induct)
  case Nil
  then show ?case by (auto simp: trace_after_def)
next
  case (snoc x xs)
  obtain name nd where x: "x = (name, nd)" by (cases x)
  from snoc.prems obtain t1 xs' nd' where
    pre: "trace_loop init_terms xs = Inr (t1, xs')" and
    upd: "site_update t1 name nd = Inr (t, nd')" and
    tr': "tr' = xs' @ [(name, nd')]"
    unfolding x trace_loop_snoc by blast
  show ?case
    using snoc.IH [OF pre] site_update_node [OF upd] step_candidate_eq [OF pre, of name nd]
    by (simp add: x tr' trace_after_snoc)
qed

lemma loop_log_measures:
  "trace_loop init_terms tr = Inr (t, tr') \<Longrightarrow> log_measures t = site_log_measures tr"
proof (induction tr arbitrary: t tr' rule: rev_induct)
  case Nil
  then show ?case by (auto simp: init_terms_def site_log_measures_def)
next
  case (snoc x xs)
  obtain name nd where x: "x = (name, nd)" by (cases x)
  from snoc.prems obtain t1 xs' nd' where
    pre: "trace_loop init_terms xs = Inr (t1, xs')" and
    upd: "site_update t1 name nd = Inr (t, nd')"
    unfolding x trace_loop_snoc by blast
  show ?case
    using snoc.IH [OF pre] site_update_log_measures [OF upd]
    by (simp add: x site_log_measures_def)
qed

lemma loop_log_factors:
  "trace_loop init_terms tr = Inr (t, tr') \<Longrightarrow>
   log_factors t = map (\<lambda>nd. f_log_prob (node_funsor nd)) (filter factor_site (map snd tr'))"
proof (induction tr arbitrary: t tr' rule: rev_induct)
  case Nil
  then show ?case by (auto simp: init_terms_def)
next
  case (snoc x xs)
  obtain name nd where x: "x = (name, nd)" by (cases x)
  from snoc.prems obtain t1 xs' nd' where
    pre: "trace_loop init_terms xs = Inr (t1, xs')" and
    upd: "site_update t1 name nd = Inr (t, nd')" and
    tr': "tr' = xs' @ [(name, nd')]"
    unfolding x trace_loop_snoc by blast
  have same: "factor_site nd' = factor_site nd"
    using site_update_node [OF upd] by (auto simp: factor_site_def not_scored_def scaled_node_def)
  show ?case
    using snoc.IH [OF pre] site_update_log_factors [OF upd]
    by (simp add: tr' same)
qed

lemma loop_plate_to_step:
  "trace_loop init_terms tr = Inr (t, tr') \<Longrightarrow> plate_to_step t = markov_steps tr"
proof (induction tr arbitrary: t tr' rule: rev_induct)
  case Nil
  then show ?case by (auto simp: init_terms_def markov_steps_def)
next
  case (snoc x xs)
  obtain name nd where x: "x = (name, nd)" by (cases x)
  from snoc.prems obtain t1 xs' nd' where
    pre: "trace_loop init_terms xs = Inr (t1, xs')" and
    upd: "site_update t1 name nd = Inr (t, nd')"
    unfolding x trace_loop_snoc by blast
  show ?case
    using snoc.IH [OF pre] site_update_plate_to_step [OF upd]
    by (auto simp: x markov_steps_def)
qed

lemma loop_returns:
  "(\<exists>t tr'. trace_loop init_terms tr = Inr (t, tr')) \<longleftrightarrow> (\<forall>i < length tr. \<not> site_fails tr i)"
proof (induction tr rule: rev_induct)
  case Nil
  then show ?case by simp
next
  case (snoc x xs)
  obtain name nd where x: "x = (name, nd)" by (cases x)
  have all: "(\<forall>i < length (xs @ [x]). \<not> site_fails (xs @ [x]) i) \<longleftrightarrow>
        (\<forall>i < length xs. \<not> site_fails xs i) \<and> \<not> site_fails (xs @ [x]) (length xs)"
    by (auto simp: less_Suc_eq site_fails_prefix)
  show ?case
  proof (cases "trace_loop init_terms xs")
    case (Inl e)
    have "\<not> (\<forall>i < length xs. \<not> site_fails xs i)"
      using snoc.IH Inl by simp
    then have "\<not> (\<forall>i < length (xs @ [x]). \<not> site_fails (xs @ [x]) i)"
      using all by blast
    moreover have "\<not> (\<exists>t tr'. trace_loop init_terms (xs @ [x]) = Inr (t, tr'))"
      using Inl by (simp add: x trace_loop_snoc)
    ultimately show ?thesis by blast
  next
    case (Inr p)
    obtain t1 xs' where p: "p = (t1, xs')" by (cases p)
    have pre: "trace_loop init_terms xs = Inr (t1, xs')" using Inr p by simp
    have "(\<exists>t nd'. site_update t1 name nd = Inr (t, nd')) \<longleftrightarrow> \<not> isl (site_update t1 name nd)"
      by (cases "site_update t1 name nd") auto
    also have "\<dots> \<longleftrightarrow> \<not> site_fails (xs @ [(name, nd)]) (length xs)"
      by (simp add: site_update_fails step_reaches_eq [OF pre] step_candidate_eq [OF pre]
          site_fails_def scale_unreadable_def product_fails_def)
    finally have last: "(\<exists>t nd'. site_update t1 name nd = Inr (t, nd')) \<longleftrightarrow>
        \<not> site_fails (xs @ [x]) (length xs)"
      by (simp add: x)
    have "\<forall>i < length xs. \<not> site_fails xs i"
      using snoc.IH pre by blast
    then have "(\<forall>i < length (xs @ [x]). \<not> site_fails (xs @ [x]) i) \<longleftrightarrow>
        \<not> site_fails (xs @ [x]) (length xs)"
      using all by blast
    moreover have "(\<exists>t tr'. trace_loop init_terms (xs @ [x]) = Inr (t, tr')) \<longleftrightarrow>
        (\<exists>t nd'. site_update t1 name nd = Inr (t, nd'))"
      using pre by (auto simp: x trace_loop_snoc)
    ultimately show ?thesis using last by blast
  qed
qed

section \<open>The bundle of a trace\<close>

lemma terms_from_trace_Inr:
  "terms_from_trace tr = Inr (t, tr') \<longleftrightarrow>
   (\<exists>t0. trace_loop init_terms tr = Inr (t0, tr') \<and> t = add_plate_steps t0)"
  by (auto simp: terms_from_trace_def split: sum.splits)

lemma terms_from_trace_isl: "isl (terms_from_trace tr) = isl (trace_loop init_terms tr)"
  by (auto simp: terms_from_trace_def split: sum.splits)

lemma add_plate_steps_fields [simp]:
  "log_factors (add_plate_steps t) = log_factors t"
  "log_measures (add_plate_steps t) = log_measures t"
  "scale (add_plate_steps t) = scale t"
  "plate_vars (add_plate_steps t) = plate_vars t"
  "measure_vars (add_plate_steps t) = measure_vars t"
  by (simp_all add: add_plate_steps_def)

lemma isl_iff_no_Inr: "isl x \<longleftrightarrow> \<not> (\<exists>t tr'. x = Inr (t, tr'))"
  by (cases x) auto

text \<open>
  Claim C1, as amended. A trace with two or more shared-scale candidates does not make
  \<^verbatim>\<open>terms_from_trace\<close> fail on that account: whenever the call returns, the shared
  scale of the bundle is the scale of the last candidate in trace order, and 1 when
  there is no candidate.
\<close>

theorem shared_scale_is_last_candidate:
  assumes "terms_from_trace tr = Inr (t, tr')"
  shows "scale t = last (Number 1 # map (\<lambda>i. f_scale (node_funsor (snd (tr ! i)))) (candidates tr))"
proof -
  from assms obtain t0 where run: "trace_loop init_terms tr = Inr (t0, tr')"
    and t: "t = add_plate_steps t0"
    unfolding terms_from_trace_Inr by blast
  show ?thesis
    using loop_scale [OF run] by (simp add: t)
qed

lemma two_scale_candidates: "candidates two_scale_trace = [1, 2]"
  by code_simp

lemma two_scale_readable: "\<not> (\<exists>i < length two_scale_trace. site_fails two_scale_trace i)"
proof -
  have "\<not> list_ex (site_fails two_scale_trace) [0..<length two_scale_trace]"
    by code_simp
  then show ?thesis by (simp add: list_ex_iff)
qed

text \<open>
  Claim C1 as stated fails: \<open>two_scale_trace\<close> has two candidates and
  \<^verbatim>\<open>terms_from_trace\<close> returns a bundle.
\<close>

theorem two_candidates_counterexample:
  "2 \<le> length (candidates two_scale_trace) \<and> \<not> isl (terms_from_trace two_scale_trace)"
proof -
  have "\<exists>t tr'. trace_loop init_terms two_scale_trace = Inr (t, tr')"
    using two_scale_readable loop_returns [of two_scale_trace] by blast
  then have "\<not> isl (terms_from_trace two_scale_trace)"
    by (auto simp: terms_from_trace_isl)
  then show ?thesis by (simp add: two_scale_candidates)
qed

text \<open>On \<open>two_scale_trace\<close> the bundle takes the scale of the second candidate.\<close>

theorem shared_scale_is_last_candidate_witness:
  "\<exists>t tr'. terms_from_trace two_scale_trace = Inr (t, tr') \<and> scale t = Number 3"
proof -
  obtain t0 tr' where "trace_loop init_terms two_scale_trace = Inr (t0, tr')"
    using two_scale_readable loop_returns [of two_scale_trace] by blast
  then have run: "terms_from_trace two_scale_trace = Inr (add_plate_steps t0, tr')"
    by (simp add: terms_from_trace_def)
  have "last (Number 1 # map (\<lambda>i. f_scale (node_funsor (snd (two_scale_trace ! i))))
                (candidates two_scale_trace)) = Number 3"
    by (simp add: two_scale_candidates) (simp add: two_scale_trace_def sample_node_def)
  then have "scale (add_plate_steps t0) = Number 3"
    using shared_scale_is_last_candidate [OF run] by simp
  then show ?thesis
    using run by blast
qed

lemma loop_prefix:
  "trace_loop init_terms tr = Inr (t, tr') \<Longrightarrow> \<exists>tk trk. trace_loop init_terms (take k tr) = Inr (tk, trk)"
proof -
  assume run: "trace_loop init_terms tr = Inr (t, tr')"
  have "trace_loop init_terms (take k tr @ drop k tr) = Inr (t, tr')"
    using run by simp
  then show ?thesis
    unfolding trace_loop_append by (auto split: sum.splits prod.splits)
qed

lemma trace_after_nth:
  "i < length tr \<Longrightarrow> trace_after tr ! i =
     (if not_scored (snd (tr ! i)) \<or> scale_candidate tr i then tr ! i
      else (fst (tr ! i), scaled_node (snd (tr ! i))))"
  by (simp add: trace_after_def)

lemma length_trace_after [simp]: "length (trace_after tr) = length tr"
  by (simp add: trace_after_def)

text \<open>
  Claim C6, as amended. \<^verbatim>\<open>terms_from_trace\<close> keeps the keys of the trace, their order
  and every record but for one field: at each scored site that is not a shared-scale
  candidate, line 42 replaces \<^verbatim>\<open>node["funsor"]["log_prob"]\<close> by its product with the
  scale of the site. Records that are passed over, and candidates, are left as they were.
\<close>

theorem trace_changes_only_log_prob:
  assumes "terms_from_trace tr = Inr (t, tr')"
  shows "length tr' = length tr \<and>
    (\<forall>i < length tr.
       fst (tr' ! i) = fst (tr ! i) \<and>
       snd (tr' ! i) =
         (if not_scored (snd (tr ! i)) \<or> scale_candidate tr i then snd (tr ! i)
          else (snd (tr ! i))\<lparr>node_funsor := (node_funsor (snd (tr ! i)))\<lparr>f_log_prob :=
                 Binary Mul (f_log_prob (node_funsor (snd (tr ! i))))
                            (f_scale (node_funsor (snd (tr ! i))))\<rparr>\<rparr>))"
proof -
  from assms obtain t0 where run: "trace_loop init_terms tr = Inr (t0, tr')"
    unfolding terms_from_trace_Inr by blast
  have tr': "tr' = trace_after tr" by (rule loop_trace [OF run])
  show ?thesis
    unfolding tr' by (simp add: trace_after_nth scaled_node_def)
qed

lemma scaled_site_run:
  "trace_loop init_terms scaled_site_trace =
     Inr (init_terms\<lparr>log_factors := [Binary Mul (Number 3) (Number 2)]\<rparr>,
          [(''x'', sample_node ''x'' []
              \<lparr>f_log_measure = None, f_value = Number 5,
               f_log_prob = Binary Mul (Number 3) (Number 2), f_scale = Number 2\<rparr>
              None None True)])"
  by (simp add: scaled_site_trace_def site_update_def sample_node_def not_scored_def get_flag_def
      common_scale_test_def init_terms_def stack_plates_def mul_funsor_def inputs_agree_def
      add_log_factor_def)

text \<open>
  Claim C6 as stated fails: after the call on \<open>scaled_site_trace\<close> the log-probability of
  its site is no longer 3 but the product of 3 and 2.
\<close>

theorem trace_mutated_counterexample:
  "\<not> isl (terms_from_trace scaled_site_trace) \<and>
   snd (projr (terms_from_trace scaled_site_trace)) \<noteq> scaled_site_trace \<and>
   f_log_prob (node_funsor (snd (scaled_site_trace ! 0))) = Number 3 \<and>
   f_log_prob (node_funsor (snd (snd (projr (terms_from_trace scaled_site_trace)) ! 0))) =
     Binary Mul (Number 3) (Number 2)"
  by (simp add: terms_from_trace_def scaled_site_run) (simp add: scaled_site_trace_def sample_node_def)

text \<open>On \<open>scaled_site_trace\<close> the one record comes back with its log-probability scaled.\<close>

theorem trace_changes_only_log_prob_witness:
  "\<exists>t tr'. terms_from_trace scaled_site_trace = Inr (t, tr') \<and> length tr' = 1 \<and>
     fst (tr' ! 0) = ''x'' \<and> snd (tr' ! 0) = scaled_node (snd (scaled_site_trace ! 0))"
proof -
  obtain t tr' where run: "terms_from_trace scaled_site_trace = Inr (t, tr')"
    by (simp add: terms_from_trace_def scaled_site_run)
  have nc: "\<not> (not_scored (snd (scaled_site_trace ! 0)) \<or> scale_candidate scaled_site_trace 0)"
    by code_simp
  have len: "length scaled_site_trace = 1" and name: "fst (scaled_site_trace ! 0) = ''x''"
    by (simp_all add: scaled_site_trace_def)
  have "length tr' = 1 \<and> fst (tr' ! 0) = ''x'' \<and>
      snd (tr' ! 0) = scaled_node (snd (scaled_site_trace ! 0))"
    using trace_changes_only_log_prob [OF run] nc len name
    by (simp add: scaled_node_def)
  with run show ?thesis by blast
qed

lemma two_candidates_readable_run:
  "\<exists>t tr'. terms_from_trace two_scale_trace = Inr (t, tr')"
proof -
  have "\<exists>t tr'. trace_loop init_terms two_scale_trace = Inr (t, tr')"
    using two_scale_readable loop_returns [of two_scale_trace] by blast
  then show ?thesis by (auto simp: terms_from_trace_def)
qed

lemma scale_candidate_take:
  "i < k \<Longrightarrow> k \<le> length tr \<Longrightarrow> scale_candidate (take k tr) i = scale_candidate tr i"
  using scale_candidate_prefix [of i "take k tr" "drop k tr"] by simp

lemma loop_prefix_plates:
  assumes "trace_loop init_terms tr = Inr (t, tr')"
  shows "\<exists>tk trk. terms_from_trace (take k tr) = Inr (tk, trk) \<and> plate_vars tk = plates_of (take k tr)"
proof -
  from loop_prefix [OF assms, of k] obtain t0 trk where
    pre: "trace_loop init_terms (take k tr) = Inr (t0, trk)" by blast
  have "terms_from_trace (take k tr) = Inr (add_plate_steps t0, trk)"
    using pre by (simp add: terms_from_trace_def)
  moreover have "plate_vars (add_plate_steps t0) = plates_of (take k tr)"
    using loop_plate_vars [OF pre] by simp
  ultimately show ?thesis by blast
qed

text \<open>
  Claim C7. The log-measures of the bundle are those of the scored sites that carry one,
  in trace order. Each such site contributes to \<open>measure_vars\<close> the inputs of its value
  and its name, without the plates accumulated up to and including the site, and
  \<open>measure_vars\<close> is the union of these contributions. The plates accumulated up to and
  including site \<open>i\<close> are the \<open>plate_vars\<close> of the bundle of the trace cut after site \<open>i\<close>.
\<close>

theorem measure_vars_per_site:
  assumes "terms_from_trace tr = Inr (t, tr')"
  shows "log_measures t = site_log_measures tr \<and>
    measure_vars t =
      (\<Union>i \<in> set (filter (\<lambda>i. measure_site (snd (tr ! i))) [0..<length tr]).
         (input_names (f_value (node_funsor (snd (tr ! i)))) \<union> {fst (tr ! i)})
           - plates_of (take (Suc i) tr)) \<and>
    (\<forall>i < length tr. \<exists>ti tri. terms_from_trace (take (Suc i) tr) = Inr (ti, tri) \<and>
         plate_vars ti = plates_of (take (Suc i) tr))"
proof -
  from assms obtain t0 where run: "trace_loop init_terms tr = Inr (t0, tr')"
    and t: "t = add_plate_steps t0"
    unfolding terms_from_trace_Inr by blast
  have "log_measures t = site_log_measures tr"
    using loop_log_measures [OF run] t by simp
  moreover have "measure_vars t = measure_of tr"
    using loop_measure_vars [OF run] t by simp
  moreover have "\<forall>i < length tr. \<exists>ti tri. terms_from_trace (take (Suc i) tr) = Inr (ti, tri) \<and>
         plate_vars ti = plates_of (take (Suc i) tr)"
    using loop_prefix_plates [OF run] by blast
  ultimately show ?thesis
    by (simp add: measure_of_def site_measure_vars_def)
qed

text \<open>
  On \<open>two_scale_trace\<close> the only site with a log-measure is \<open>z\<close>, outside every plate:
  the measure variables are \<open>{z}\<close>.
\<close>

theorem measure_vars_per_site_witness:
  "\<exists>t tr'. terms_from_trace two_scale_trace = Inr (t, tr') \<and>
     log_measures t = [Tensor [(''z'', Bint 2)] [1, 2]] \<and> measure_vars t = {''z''}"
proof -
  obtain t tr' where run: "terms_from_trace two_scale_trace = Inr (t, tr')"
    using two_candidates_readable_run by blast
  have m: "measure_of two_scale_trace = {''z''}"
    by code_simp
  have l: "site_log_measures two_scale_trace = [Tensor [(''z'', Bint 2)] [1, 2]]"
    by code_simp
  have "log_measures t = [Tensor [(''z'', Bint 2)] [1, 2]] \<and> measure_vars t = {''z''}"
    using measure_vars_per_site [OF run] m l
    by (simp add: measure_of_def site_measure_vars_def)
  with run show ?thesis by blast
qed

text \<open>
  Claim C10 as stated fails: the site of \<open>unscored_site_trace\<close> has scale 2, the bundle
  keeps the scale 1, so the scale of the site is not adopted, and the log-probability
  of the site is still 3 after the call, so the scale is not multiplied into it either.
\<close>

theorem unscored_site_counterexample:
  "\<not> isl (terms_from_trace unscored_site_trace) \<and>
   f_scale (node_funsor (snd (unscored_site_trace ! 0))) = Number 2 \<and>
   f_log_prob (node_funsor (snd (unscored_site_trace ! 0))) = Number 3 \<and>
   \<not> scale_candidate unscored_site_trace 0 \<and>
   scale (fst (projr (terms_from_trace unscored_site_trace))) = Number 1 \<and>
   f_log_prob (node_funsor (snd (snd (projr (terms_from_trace unscored_site_trace)) ! 0))) = Number 3"
proof -
  have "trace_loop init_terms unscored_site_trace = Inr (init_terms, unscored_site_trace)"
    by (simp add: unscored_site_trace_def site_update_def sample_node_def not_scored_def get_flag_def)
  then have run: "terms_from_trace unscored_site_trace =
      Inr (add_plate_steps init_terms, unscored_site_trace)"
    by (simp add: terms_from_trace_def)
  have c: "\<not> scale_candidate unscored_site_trace 0"
    by code_simp
  have v: "f_scale (node_funsor (snd (unscored_site_trace ! 0))) = Number 2"
    "f_log_prob (node_funsor (snd (unscored_site_trace ! 0))) = Number 3"
    by (simp_all add: unscored_site_trace_def sample_node_def)
  have "scale (add_plate_steps init_terms) = Number 1"
    by (simp add: init_terms_def)
  with run c v show ?thesis by simp
qed

text \<open>
  Claim C10, as amended. At every scored site, adoption of the scale and multiplication
  by the scale exclude each other. Let \<open>t0\<close> be the bundle of the trace cut before site
  \<open>i\<close> and \<open>t1\<close> the bundle of the trace cut after it. If the site is a shared-scale
  candidate, its scale becomes the scale of the bundle and its log-probability is left
  as it was; if not, the scale of the bundle stays and the log-probability of the site
  becomes its product with the scale of the site.
\<close>

theorem adoption_excludes_scaling:
  assumes "terms_from_trace tr = Inr (t, tr')" and "i < length tr"
    and "\<not> not_scored (snd (tr ! i))"
  shows "\<exists>t0 tr0 t1 tr1.
     terms_from_trace (take i tr) = Inr (t0, tr0) \<and>
     terms_from_trace (take (Suc i) tr) = Inr (t1, tr1) \<and>
     (if scale_candidate tr i
      then scale t1 = f_scale (node_funsor (snd (tr ! i))) \<and>
           f_log_prob (node_funsor (snd (tr' ! i))) = f_log_prob (node_funsor (snd (tr ! i)))
      else scale t1 = scale t0 \<and>
           f_log_prob (node_funsor (snd (tr' ! i))) =
             Binary Mul (f_log_prob (node_funsor (snd (tr ! i)))) (f_scale (node_funsor (snd (tr ! i)))))"
proof -
  from assms(1) obtain tl where run: "trace_loop init_terms tr = Inr (tl, tr')"
    unfolding terms_from_trace_Inr by blast
  obtain name nd where site: "tr ! i = (name, nd)" by (cases "tr ! i")
  have cut: "take (Suc i) tr = take i tr @ [(name, nd)]"
    using assms(2) site by (simp add: take_Suc_conv_app_nth)
  from loop_prefix [OF run, of "Suc i"] obtain t1 tr1 where
    pre1: "trace_loop init_terms (take i tr @ [(name, nd)]) = Inr (t1, tr1)"
    unfolding cut by blast
  then obtain t0 tr0 nd' where
    pre0: "trace_loop init_terms (take i tr) = Inr (t0, tr0)" and
    upd: "site_update t0 name nd = Inr (t1, nd')"
    unfolding trace_loop_snoc by blast
  have "step_candidate t0 name nd = scale_candidate (take (Suc i) tr) i"
    using step_candidate_eq [OF pre0, of name nd] assms(2) by (simp add: cut)
  then have cand: "step_candidate t0 name nd = scale_candidate tr i"
    using scale_candidate_take [of i "Suc i" tr] assms(2) by simp
  have sc: "scale t1 = (if scale_candidate tr i then f_scale (node_funsor nd) else scale t0)"
    using site_update_scale [OF upd] cand by simp
  have "tr' = trace_after tr" by (rule loop_trace [OF run])
  then have lp: "snd (tr' ! i) = (if scale_candidate tr i then nd else scaled_node nd)"
    using assms(2,3) site by (simp add: trace_after_nth)
  have r0: "terms_from_trace (take i tr) = Inr (add_plate_steps t0, tr0)"
    using pre0 by (simp add: terms_from_trace_def)
  have r1: "terms_from_trace (take (Suc i) tr) = Inr (add_plate_steps t1, tr1)"
    using pre1 by (simp add: terms_from_trace_def cut)
  have "(if scale_candidate tr i
      then scale (add_plate_steps t1) = f_scale (node_funsor (snd (tr ! i))) \<and>
           f_log_prob (node_funsor (snd (tr' ! i))) = f_log_prob (node_funsor (snd (tr ! i)))
      else scale (add_plate_steps t1) = scale (add_plate_steps t0) \<and>
           f_log_prob (node_funsor (snd (tr' ! i))) =
             Binary Mul (f_log_prob (node_funsor (snd (tr ! i)))) (f_scale (node_funsor (snd (tr ! i)))))"
    using sc lp site by (simp add: scaled_node_def)
  with r0 r1 show ?thesis by blast
qed

text \<open>
  On \<open>two_scale_trace\<close>: site 0 is no candidate and its log-probability is multiplied by
  its scale; site 1 is a candidate, its scale is adopted and its log-probability stays.
\<close>

theorem adoption_excludes_scaling_witness:
  "\<exists>t tr' t1 tr1 t2 tr2.
     terms_from_trace two_scale_trace = Inr (t, tr') \<and>
     terms_from_trace (take 1 two_scale_trace) = Inr (t1, tr1) \<and>
     terms_from_trace (take 2 two_scale_trace) = Inr (t2, tr2) \<and>
     f_log_prob (node_funsor (snd (tr' ! 0))) = Binary Mul (Tensor [(''z'', Bint 2)] [1, 2]) (Number 1) \<and>
     scale t2 = Number 2 \<and>
     f_log_prob (node_funsor (snd (tr' ! 1))) = Tensor [(''z'', Bint 2)] [3, 4]"
proof -
  obtain t tr' where run: "terms_from_trace two_scale_trace = Inr (t, tr')"
    using two_candidates_readable_run by blast
  have len: "0 < length two_scale_trace" "1 < length two_scale_trace"
    by (simp_all add: two_scale_trace_def)
  have scored: "\<not> not_scored (snd (two_scale_trace ! 0))" "\<not> not_scored (snd (two_scale_trace ! 1))"
    by code_simp+
  have c0: "\<not> scale_candidate two_scale_trace 0" and c1: "scale_candidate two_scale_trace 1"
    by code_simp+
  have v0: "f_log_prob (node_funsor (snd (two_scale_trace ! 0))) = Tensor [(''z'', Bint 2)] [1, 2]"
    "f_scale (node_funsor (snd (two_scale_trace ! 0))) = Number 1"
    "f_log_prob (node_funsor (snd (two_scale_trace ! 1))) = Tensor [(''z'', Bint 2)] [3, 4]"
    "f_scale (node_funsor (snd (two_scale_trace ! 1))) = Number 2"
    by (simp_all add: two_scale_trace_def sample_node_def)
  from adoption_excludes_scaling [OF run len(1) scored(1)] c0 v0
  obtain t1 tr1 where
    r1: "terms_from_trace (take 1 two_scale_trace) = Inr (t1, tr1)" and
    lp0: "f_log_prob (node_funsor (snd (tr' ! 0))) = Binary Mul (Tensor [(''z'', Bint 2)] [1, 2]) (Number 1)"
    by auto
  from adoption_excludes_scaling [OF run len(2) scored(2)] c1 v0
  obtain t2 tr2 where
    r2: "terms_from_trace (take 2 two_scale_trace) = Inr (t2, tr2)" and
    s2: "scale t2 = Number 2" and
    lp1: "f_log_prob (node_funsor (snd (tr' ! 1))) = Tensor [(''z'', Bint 2)] [3, 4]"
    by (auto simp: numeral_2_eq_2)
  from run r1 r2 lp0 s2 lp1 show ?thesis by blast
qed

subsection \<open>Records of type \<^verbatim>\<open>markov_chain\<close>\<close>

lemma site_update_markov:
  "node_type nd = ''markov_chain'' \<Longrightarrow>
   site_update t name nd =
     Inr (t\<lparr>plate_to_step := (plate_to_step t)(node_name nd \<mapsto> node_value nd)\<rparr>, nd)"
  by (simp add: site_update_def not_scored_def)

lemma common_scale_test_steps [simp]:
  "common_scale_test (t\<lparr>plate_to_step := m\<rparr>) nd = common_scale_test t nd"
  by (simp add: common_scale_test_def)

lemma site_update_steps:
  "node_type nd \<noteq> ''markov_chain'' \<Longrightarrow>
   site_update (t\<lparr>plate_to_step := m\<rparr>) name nd =
     (case site_update t name nd of
        Inl e \<Rightarrow> Inl e
      | Inr (t', nd') \<Rightarrow> Inr (t'\<lparr>plate_to_step := m\<rparr>, nd'))"
  by (auto simp: site_update_def mul_funsor_def add_log_factor_def Let_def common_scale_test_def split: option.splits sum.splits)

lemma site_update_node_type:
  assumes "site_update t name nd = Inr (t', nd')"
  shows "node_type nd' = node_type nd"
  using site_update_node [OF assms] by (auto simp: scaled_node_def split: if_splits)

lemma drop_markov_loop:
  "trace_loop t tr = Inr (t', tr') \<Longrightarrow>
   trace_loop (t\<lparr>plate_to_step := m\<rparr>) (filter (\<lambda>kv. node_type (snd kv) \<noteq> ''markov_chain'') tr) =
     Inr (t'\<lparr>plate_to_step := m\<rparr>, filter (\<lambda>kv. node_type (snd kv) \<noteq> ''markov_chain'') tr')"
proof (induction tr arbitrary: t t' tr')
  case Nil
  then show ?case by simp
next
  case (Cons x rest)
  obtain name nd where x: "x = (name, nd)" by (cases x)
  from Cons.prems obtain t1 nd' rest' where
    upd: "site_update t name nd = Inr (t1, nd')" and
    run: "trace_loop t1 rest = Inr (t', rest')" and
    tr': "tr' = (name, nd') # rest'"
    unfolding x by (auto split: sum.splits prod.splits)
  have ty: "node_type nd' = node_type nd" by (rule site_update_node_type [OF upd])
  show ?case
  proof (cases "node_type nd = ''markov_chain''")
    case True
    have "t1\<lparr>plate_to_step := m\<rparr> = t\<lparr>plate_to_step := m\<rparr>"
      using upd site_update_markov [OF True] by auto
    then show ?thesis
      using Cons.IH [OF run] True ty by (simp add: x tr')
  next
    case False
    have "site_update (t\<lparr>plate_to_step := m\<rparr>) name nd = Inr (t1\<lparr>plate_to_step := m\<rparr>, nd')"
      using site_update_steps [OF False] upd by simp
    then show ?thesis
      using Cons.IH [OF run] False ty by (simp add: x tr')
  qed
qed

lemma factor_site_scaled [simp]: "factor_site (scaled_node nd) = factor_site nd"
  by (simp add: factor_site_def scaled_node_def not_scored_def)

lemma factor_site_trace_after:
  "i < length tr \<Longrightarrow> factor_site (snd (trace_after tr ! i)) = factor_site (snd (tr ! i))"
  by (simp add: trace_after_nth)

text \<open>
  Claim C8. The log-factors of the bundle are the log-probabilities, as the pass leaves
  them in the trace, of the scored sites that are observed or whose \<open>replay_skipped\<close>
  flag is not set, in trace order; a scored site with the flag set and not observed
  gives none. Records of type \<^verbatim>\<open>markov_chain\<close> give no factor and no measure: without
  them the call returns the same \<open>log_factors\<close> and \<open>log_measures\<close>.
\<close>

theorem log_factors_of_scored_sites:
  assumes "terms_from_trace tr = Inr (t, tr')"
  shows "log_factors t =
      map (\<lambda>i. f_log_prob (node_funsor (snd (tr' ! i))))
        (filter (\<lambda>i. \<not> not_scored (snd (tr ! i)) \<and>
                      (is_observed (snd (tr ! i)) \<or> \<not> get_flag (replay_skipped (snd (tr ! i)))))
           [0..<length tr]) \<and>
    (\<exists>t2 tr2. terms_from_trace (filter (\<lambda>kv. node_type (snd kv) \<noteq> ''markov_chain'') tr) = Inr (t2, tr2) \<and>
       log_factors t2 = log_factors t \<and> log_measures t2 = log_measures t)"
proof -
  from assms obtain t0 where run: "trace_loop init_terms tr = Inr (t0, tr')"
    and t: "t = add_plate_steps t0"
    unfolding terms_from_trace_Inr by blast
  have tr': "tr' = trace_after tr" by (rule loop_trace [OF run])
  have len: "length tr' = length tr" unfolding tr' by simp
  have "map snd (map ((!) tr') [0..<length tr']) = map (\<lambda>i. snd (tr' ! i)) [0..<length tr]"
    unfolding len by (simp only: map_map comp_def)
  then have "map snd tr' = map (\<lambda>i. snd (tr' ! i)) [0..<length tr]"
    by (simp only: map_nth)
  then have "filter factor_site (map snd tr') =
      map (\<lambda>i. snd (tr' ! i)) (filter (\<lambda>i. factor_site (snd (tr' ! i))) [0..<length tr])"
    by (simp add: filter_map comp_def)
  also have "filter (\<lambda>i. factor_site (snd (tr' ! i))) [0..<length tr] =
      filter (\<lambda>i. factor_site (snd (tr ! i))) [0..<length tr]"
    unfolding tr' by (rule filter_cong) (simp_all add: factor_site_trace_after)
  finally have "log_factors t =
      map (\<lambda>i. f_log_prob (node_funsor (snd (tr' ! i))))
        (filter (\<lambda>i. factor_site (snd (tr ! i))) [0..<length tr])"
    using loop_log_factors [OF run] t by (simp add: comp_def)
  then have first: "log_factors t =
      map (\<lambda>i. f_log_prob (node_funsor (snd (tr' ! i))))
        (filter (\<lambda>i. \<not> not_scored (snd (tr ! i)) \<and>
                      (is_observed (snd (tr ! i)) \<or> \<not> get_flag (replay_skipped (snd (tr ! i)))))
           [0..<length tr])"
    by (simp add: factor_site_def)
  have "trace_loop (init_terms\<lparr>plate_to_step := Map.empty\<rparr>)
          (filter (\<lambda>kv. node_type (snd kv) \<noteq> ''markov_chain'') tr) =
        Inr (t0\<lparr>plate_to_step := Map.empty\<rparr>, filter (\<lambda>kv. node_type (snd kv) \<noteq> ''markov_chain'') tr')"
    by (rule drop_markov_loop [OF run])
  moreover have "init_terms\<lparr>plate_to_step := Map.empty\<rparr> = init_terms"
    by (simp add: init_terms_def)
  ultimately have "terms_from_trace (filter (\<lambda>kv. node_type (snd kv) \<noteq> ''markov_chain'') tr) =
      Inr (add_plate_steps (t0\<lparr>plate_to_step := Map.empty\<rparr>),
           filter (\<lambda>kv. node_type (snd kv) \<noteq> ''markov_chain'') tr')"
    by (simp add: terms_from_trace_def)
  moreover have "log_factors (add_plate_steps (t0\<lparr>plate_to_step := Map.empty\<rparr>)) = log_factors t"
    "log_measures (add_plate_steps (t0\<lparr>plate_to_step := Map.empty\<rparr>)) = log_measures t"
    using t by simp_all
  ultimately show ?thesis using first by blast
qed

lemma markov_trace_run: "\<exists>t tr'. terms_from_trace markov_trace = Inr (t, tr')"
proof -
  have "\<not> list_ex (site_fails markov_trace) [0..<length markov_trace]"
    by code_simp
  then have "\<forall>i < length markov_trace. \<not> site_fails markov_trace i"
    by (simp add: list_ex_iff)
  then have "\<exists>t tr'. trace_loop init_terms markov_trace = Inr (t, tr')"
    using loop_returns [of markov_trace] by blast
  then show ?thesis by (auto simp: terms_from_trace_def)
qed

text \<open>
  On \<open>markov_trace\<close> the enumerated site and the observed site give the two factors; the
  \<^verbatim>\<open>markov_chain\<close> record and the skipped latent site give none.
\<close>

theorem log_factors_of_scored_sites_witness:
  "\<exists>t tr'. terms_from_trace markov_trace = Inr (t, tr') \<and>
     log_factors t = [Binary Mul (Tensor [(''x_curr'', Bint 2)] [1, 2]) (Number 1),
                      Binary Mul (Tensor [(''x_curr'', Bint 2)] [3, 4]) (Number 1)]"
proof -
  obtain t tr' where run: "terms_from_trace markov_trace = Inr (t, tr')"
    using markov_trace_run by blast
  then obtain t0 where "trace_loop init_terms markov_trace = Inr (t0, tr')"
    unfolding terms_from_trace_Inr by blast
  then have tr': "tr' = trace_after markov_trace" by (rule loop_trace)
  have sites: "filter (\<lambda>i. \<not> not_scored (snd (markov_trace ! i)) \<and>
                      (is_observed (snd (markov_trace ! i)) \<or>
                       \<not> get_flag (replay_skipped (snd (markov_trace ! i)))))
           [0..<length markov_trace] = [1, 2]"
    by code_simp
  have vals: "f_log_prob (node_funsor (snd (trace_after markov_trace ! 1))) =
        Binary Mul (Tensor [(''x_curr'', Bint 2)] [1, 2]) (Number 1)"
      "f_log_prob (node_funsor (snd (trace_after markov_trace ! 2))) =
        Binary Mul (Tensor [(''x_curr'', Bint 2)] [3, 4]) (Number 1)"
    by code_simp+
  have "log_factors t = [Binary Mul (Tensor [(''x_curr'', Bint 2)] [1, 2]) (Number 1),
                      Binary Mul (Tensor [(''x_curr'', Bint 2)] [3, 4]) (Number 1)]"
    using log_factors_of_scored_sites [OF run] sites vals by (simp add: tr')
  with run show ?thesis by blast
qed

subsection \<open>The step descriptors\<close>

lemma markov_steps_snoc:
  "markov_steps (xs @ [(name, nd)]) =
     (if node_type nd = ''markov_chain'' then (markov_steps xs)(node_name nd \<mapsto> node_value nd)
      else markov_steps xs)"
  by (simp add: markov_steps_def)

lemma markov_steps_none:
  "(\<forall>nd \<in> snd ` set tr. node_type nd = ''markov_chain'' \<longrightarrow> node_name nd \<noteq> p) \<Longrightarrow>
   markov_steps tr p = None"
  by (induction tr rule: rev_induct) (auto simp: markov_steps_snoc markov_steps_def)

lemma markov_steps_last:
  "i < length tr \<Longrightarrow> node_type (snd (tr ! i)) = ''markov_chain'' \<Longrightarrow>
   (\<forall>j < length tr. i < j \<and> node_type (snd (tr ! j)) = ''markov_chain'' \<longrightarrow>
       node_name (snd (tr ! j)) \<noteq> node_name (snd (tr ! i))) \<Longrightarrow>
   markov_steps tr (node_name (snd (tr ! i))) = Some (node_value (snd (tr ! i)))"
proof (induction tr rule: rev_induct)
  case Nil
  then show ?case by simp
next
  case (snoc x xs)
  obtain name nd where x: "x = (name, nd)" by (cases x)
  show ?case
  proof (cases "i = length xs")
    case True
    then show ?thesis
      using snoc.prems(2) by (simp add: x markov_steps_snoc)
  next
    case False
    then have i: "i < length xs" using snoc.prems(1) by simp
    have later: "\<forall>j < length xs. i < j \<and> node_type (snd (xs ! j)) = ''markov_chain'' \<longrightarrow>
        node_name (snd (xs ! j)) \<noteq> node_name (snd (xs ! i))"
    proof (intro allI impI)
      fix j assume j: "j < length xs" and "i < j \<and> node_type (snd (xs ! j)) = ''markov_chain''"
      then show "node_name (snd (xs ! j)) \<noteq> node_name (snd (xs ! i))"
        using snoc.prems(3) [rule_format, of j] i by (simp add: nth_append)
    qed
    have old: "markov_steps xs (node_name (snd (xs ! i))) = Some (node_value (snd (xs ! i)))"
      using snoc.IH [OF i _ later] snoc.prems(2) i by (simp add: nth_append)
    have "node_type nd = ''markov_chain'' \<longrightarrow> node_name nd \<noteq> node_name (snd (xs ! i))"
      using snoc.prems(3) [rule_format, of "length xs"] i by (simp add: x nth_append)
    then show ?thesis
      using old i by (auto simp: x markov_steps_snoc nth_append)
  qed
qed

text \<open>
  Claim C9. In the bundle that \<^verbatim>\<open>terms_from_trace\<close> returns, every plate of \<open>plate_vars\<close>
  has a step descriptor; it is the empty one when no \<^verbatim>\<open>markov_chain\<close> record bears the
  name of the plate; and the descriptor registered by a \<^verbatim>\<open>markov_chain\<close> record (the
  last one of its name) is the entry of that name, whether or not the name is a plate.
\<close>

theorem plates_have_steps:
  assumes "terms_from_trace tr = Inr (t, tr')"
  shows "(\<forall>p \<in> plate_vars t. \<exists>s. plate_to_step t p = Some s) \<and>
    (\<forall>p \<in> plate_vars t.
       (\<forall>nd \<in> snd ` set tr. node_type nd = ''markov_chain'' \<longrightarrow> node_name nd \<noteq> p) \<longrightarrow>
       plate_to_step t p = Some []) \<and>
    (\<forall>i < length tr.
       node_type (snd (tr ! i)) = ''markov_chain'' \<and>
       (\<forall>j < length tr. i < j \<and> node_type (snd (tr ! j)) = ''markov_chain'' \<longrightarrow>
           node_name (snd (tr ! j)) \<noteq> node_name (snd (tr ! i))) \<longrightarrow>
       plate_to_step t (node_name (snd (tr ! i))) = Some (node_value (snd (tr ! i))))"
proof -
  from assms obtain t0 where run: "trace_loop init_terms tr = Inr (t0, tr')"
    and t: "t = add_plate_steps t0"
    unfolding terms_from_trace_Inr by blast
  have steps: "plate_to_step t0 = markov_steps tr" by (rule loop_plate_to_step [OF run])
  have entry: "plate_to_step t p =
      (if p \<in> plate_vars t then Some (case markov_steps tr p of None \<Rightarrow> [] | Some s \<Rightarrow> s)
       else markov_steps tr p)" for p
    unfolding t by (simp add: add_plate_steps_def steps)
  have "\<forall>p \<in> plate_vars t. \<exists>s. plate_to_step t p = Some s"
    by (simp add: entry)
  moreover have "\<forall>p \<in> plate_vars t.
       (\<forall>nd \<in> snd ` set tr. node_type nd = ''markov_chain'' \<longrightarrow> node_name nd \<noteq> p) \<longrightarrow>
       plate_to_step t p = Some []"
    using markov_steps_none [of tr] by (simp add: entry)
  moreover have "\<forall>i < length tr.
       node_type (snd (tr ! i)) = ''markov_chain'' \<and>
       (\<forall>j < length tr. i < j \<and> node_type (snd (tr ! j)) = ''markov_chain'' \<longrightarrow>
           node_name (snd (tr ! j)) \<noteq> node_name (snd (tr ! i))) \<longrightarrow>
       plate_to_step t (node_name (snd (tr ! i))) = Some (node_value (snd (tr ! i)))"
  proof (intro allI impI)
    fix i assume i: "i < length tr" and
      h: "node_type (snd (tr ! i)) = ''markov_chain'' \<and>
       (\<forall>j < length tr. i < j \<and> node_type (snd (tr ! j)) = ''markov_chain'' \<longrightarrow>
           node_name (snd (tr ! j)) \<noteq> node_name (snd (tr ! i)))"
    have "markov_steps tr (node_name (snd (tr ! i))) = Some (node_value (snd (tr ! i)))"
      using markov_steps_last [OF i] h by blast
    then show "plate_to_step t (node_name (snd (tr ! i))) = Some (node_value (snd (tr ! i)))"
      by (simp add: entry)
  qed
  ultimately show ?thesis by blast
qed

text \<open>
  On \<open>markov_trace\<close> the plates are \<open>time\<close> and \<open>data\<close>: \<open>time\<close> keeps the descriptor of
  its \<^verbatim>\<open>markov_chain\<close> record and \<open>data\<close> gets the empty one.
\<close>

theorem plates_have_steps_witness:
  "\<exists>t tr'. terms_from_trace markov_trace = Inr (t, tr') \<and> plate_vars t = {''time'', ''data''} \<and>
     plate_to_step t ''time'' = Some [[''x_prev'', ''x_curr'']] \<and>
     plate_to_step t ''data'' = Some []"
proof -
  obtain t tr' where run: "terms_from_trace markov_trace = Inr (t, tr')"
    using markov_trace_run by blast
  then obtain t0 where "trace_loop init_terms markov_trace = Inr (t0, tr')" and "t = add_plate_steps t0"
    unfolding terms_from_trace_Inr by blast
  then have "plate_vars t = plates_of markov_trace"
    using loop_plate_vars by simp
  moreover have "plates_of markov_trace = {''time'', ''data''}"
    by code_simp
  ultimately have pv: "plate_vars t = {''time'', ''data''}" by simp
  have len: "0 < length markov_trace"
    and rec: "node_type (snd (markov_trace ! 0)) = ''markov_chain''"
       "node_name (snd (markov_trace ! 0)) = ''time''"
       "node_value (snd (markov_trace ! 0)) = [[''x_prev'', ''x_curr'']]"
    by (simp_all add: markov_trace_def markov_chain_node_def)
  have only: "\<forall>j < length markov_trace. 0 < j \<and> node_type (snd (markov_trace ! j)) = ''markov_chain'' \<longrightarrow>
           node_name (snd (markov_trace ! j)) \<noteq> node_name (snd (markov_trace ! 0))"
    by (simp add: markov_trace_def markov_chain_node_def sample_node_def less_Suc_eq)
  have nodata: "\<forall>nd \<in> snd ` set markov_trace. node_type nd = ''markov_chain'' \<longrightarrow> node_name nd \<noteq> ''data''"
    by (simp add: markov_trace_def markov_chain_node_def sample_node_def)
  have "plate_to_step t ''time'' = Some [[''x_prev'', ''x_curr'']]"
    using plates_have_steps [OF run] len rec only by metis
  moreover have "plate_to_step t ''data'' = Some []"
    using plates_have_steps [OF run] pv nodata by blast
  ultimately show ?thesis using run pv by blast
qed

lemma terms_from_trace_bundle:
  assumes "terms_from_trace tr = Inr (t, tr')"
  shows "t = bundle_of tr \<and> tr' = trace_after tr"
proof -
  from assms obtain t0 where run: "trace_loop init_terms tr = Inr (t0, tr')"
    and t: "t = add_plate_steps t0"
    unfolding terms_from_trace_Inr by blast
  have tr': "tr' = trace_after tr" by (rule loop_trace [OF run])
  have "plate_to_step (add_plate_steps t0) p = plate_to_step (bundle_of tr) p" for p
    using loop_plate_vars [OF run] loop_plate_to_step [OF run]
    by (simp add: add_plate_steps_def bundle_of_def)
  then have steps: "plate_to_step (add_plate_steps t0) = plate_to_step (bundle_of tr)"
    by (rule ext)
  have "add_plate_steps t0 = bundle_of tr"
  proof (rule terms.equality)
    show "log_factors (add_plate_steps t0) = log_factors (bundle_of tr)"
      using loop_log_factors [OF run] by (simp add: bundle_of_def tr')
    show "log_measures (add_plate_steps t0) = log_measures (bundle_of tr)"
      using loop_log_measures [OF run] by (simp add: bundle_of_def)
    show "scale (add_plate_steps t0) = scale (bundle_of tr)"
      using loop_scale [OF run] by (simp add: bundle_of_def)
    show "plate_vars (add_plate_steps t0) = plate_vars (bundle_of tr)"
      using loop_plate_vars [OF run] by (simp add: bundle_of_def)
    show "measure_vars (add_plate_steps t0) = measure_vars (bundle_of tr)"
      using loop_measure_vars [OF run] by (simp add: bundle_of_def)
    show "plate_to_step (add_plate_steps t0) = plate_to_step (bundle_of tr)"
      by (rule steps)
    show "terms.more (add_plate_steps t0) = terms.more (bundle_of tr)"
      by simp
  qed
  then have "t = bundle_of tr" using t by simp
  with tr' show ?thesis by simp
qed

lemma terms_from_trace_readable:
  assumes "\<not> list_ex (site_fails tr) [0..<length tr]"
  shows "terms_from_trace tr = Inr (bundle_of tr, trace_after tr)"
proof -
  from assms have "\<forall>i < length tr. \<not> site_fails tr i"
    by (simp add: list_ex_iff)
  then obtain t0 tr' where "trace_loop init_terms tr = Inr (t0, tr')"
    using loop_returns [of tr] by blast
  then have run: "terms_from_trace tr = Inr (add_plate_steps t0, tr')"
    by (simp add: terms_from_trace_def)
  show ?thesis
    using run terms_from_trace_bundle [OF run] by simp
qed

lemma plate_guide_run:
  "terms_from_trace plate_guide_trace = Inr (bundle_of plate_guide_trace, trace_after plate_guide_trace)"
  by (rule terms_from_trace_readable) code_simp

lemma plate_model_run:
  "terms_from_trace plate_model_trace = Inr (bundle_of plate_model_trace, trace_after plate_model_trace)"
  by (rule terms_from_trace_readable) code_simp

lemma plate_guide_bundle:
  "log_factors (bundle_of plate_guide_trace) =
     [Binary Mul (Tensor [(''data'', Bint 2), (''z'', Bint 2)] [1, 2, 3, 4]) (Number 1)]"
  "log_measures (bundle_of plate_guide_trace) = [Tensor [(''data'', Bint 2), (''z'', Bint 2)] [1, 2, 3, 4]]"
  "plate_vars (bundle_of plate_guide_trace) = {''data''}"
  "measure_vars (bundle_of plate_guide_trace) = {''z''}"
  "plate_to_step (bundle_of plate_guide_trace) ''data'' = Some []"
  by code_simp+

lemma plate_model_bundle:
  "log_factors (bundle_of plate_model_trace) =
     [Binary Mul (Tensor [(''z'', Bint 2)] [5, 6]) (Number 1), Binary Mul (Tensor [] [7]) (Number 1)]"
  "log_measures (bundle_of plate_model_trace) = []"
  "scale (bundle_of plate_model_trace) = Number 1"
  "plate_vars (bundle_of plate_model_trace) = {''data''}"
  "measure_vars (bundle_of plate_model_trace) = {}"
  "plate_to_step (bundle_of plate_model_trace) ''data'' = Some []"
  by code_simp+

section \<open>The loss of \<^verbatim>\<open>TraceEnum_ELBO\<close>\<close>

lemma enum_elbo_loop_fold:
  "enum_elbo_loop eng gt pvars (elbo, calls) costs =
     (foldl (Binary Add) elbo (map (\<lambda>f. fst (enum_elbo_term eng gt pvars f)) costs),
      calls @ concat (map (\<lambda>f. snd (enum_elbo_term eng gt pvars f)) costs))"
  by (induction costs arbitrary: elbo calls) (auto split: prod.splits)

text \<open>
  Claim C2. Let \<open>gt\<close> and \<open>mt\<close> be the bundles of the guide and of the model, \<open>P\<close> the
  plates of both, and \<open>costs\<close> the contracted costs of the model, its uncontracted
  factors and the negated log-factors of the guide. The loss is minus the value of the
  sum, from 0, of one term for each cost \<open>f\<close>: the marginal is \<^verbatim>\<open>sum_product\<close> of the
  log-measures of the guide with the plates \<open>P\<close> and \<open>eliminate\<close> the plates and the
  measure variables of the guide without the inputs of \<open>f\<close>; the term integrates \<open>f\<close>
  against it over the measure variables of the guide among the inputs of \<open>f\<close>, and is
  reduced by addition over the plates among the inputs of \<open>f\<close>. The calls to the engine
  are the one of \<^verbatim>\<open>partial_sum_product\<close> and then one \<^verbatim>\<open>sum_product\<close> for each cost.
\<close>

theorem enum_loss_sums_expected_costs:
  assumes "terms_from_trace guide_tr = Inr (gt, guide_tr')"
    and "terms_from_trace model_tr = Inr (mt, model_tr')"
  shows "(let P = plate_vars gt \<union> plate_vars mt;
              factors = log_measures mt @ contracted_factors mt;
              costs = map (Binary Mul (scale mt))
                        (partial_sum_product eng Logaddexp Add factors (plate_vars mt) (measure_vars mt))
                      @ uncontracted_factors mt @ map (Unary Neg) (log_factors gt);
              log_prob = (\<lambda>f. sum_product eng Logaddexp Add (log_measures gt) P
                                ((P \<union> measure_vars gt) - input_names f));
              elbo = foldl (Binary Add) (Number 0)
                       (map (\<lambda>f. Reduce Add
                                   (Integrate (log_prob f) f (measure_vars gt \<inter> input_names f))
                                   (P \<inter> input_names f))
                          costs)
          in TraceEnum_ELBO_loss eng guide_tr model_tr =
               (Inr (- to_data eng (apply_optimizer eng elbo)),
                Call_partial_sum_product Logaddexp Add factors (plate_vars mt) (measure_vars mt)
                # map (\<lambda>f. Call_sum_product Logaddexp Add (log_measures gt) P
                              ((P \<union> measure_vars gt) - input_names f)) costs))"
  using assms
  by (simp add: TraceEnum_ELBO_loss_def enum_costs_def enum_contracted_costs_def
      enum_elbo_loop_fold enum_elbo_term_def Let_def comp_def)

text \<open>
  On the pair of example traces there are three costs, so the engine is called four
  times, and the loss is minus the value of the sum.
\<close>

theorem enum_loss_sums_expected_costs_witness:
  "fst (TraceEnum_ELBO_loss naive_engine plate_guide_trace plate_model_trace) = Inr 0 \<and>
   map eliminate_of (snd (TraceEnum_ELBO_loss naive_engine plate_guide_trace plate_model_trace)) =
     [Some {}, Some {''data''}, Some {''data'', ''z''}, Some {}]"
proof -
  have u: "uncontracted_factors (bundle_of plate_model_trace) =
      [Binary Mul (Tensor [(''z'', Bint 2)] [5, 6]) (Number 1), Binary Mul (Tensor [] [7]) (Number 1)]"
    and c: "contracted_factors (bundle_of plate_model_trace) = []"
    by code_simp+
  have n: "input_names (Binary Mul (Tensor [(''z'', Bint 2)] [5, 6]) (Number 1)) = {''z''}"
    "input_names (Binary Mul (Tensor [] [7]) (Number 1)) = {}"
    "input_names (Unary Neg (Binary Mul (Tensor [(''data'', Bint 2), (''z'', Bint 2)] [1, 2, 3, 4]) (Number 1))) =
       {''data'', ''z''}"
    by code_simp+
  show ?thesis
    using enum_loss_sums_expected_costs [OF plate_guide_run plate_model_run, of naive_engine]
    by (simp add: Let_def plate_guide_bundle plate_model_bundle u c n)
      (auto simp: naive_engine_def)
qed

section \<open>The loss of \<^verbatim>\<open>TraceMarkovEnum_ELBO\<close>\<close>

lemma find_filter:
  "find P xs = (if filter P xs = [] then None else Some (hd (filter P xs)))"
  by (induction xs) auto

lemma lookup_marginal_filter:
  "lookup_marginal log_qs cost =
     (if filter (\<lambda>log_q. dict_eq (inputs log_q) (inputs cost)) log_qs = [] then Inl StopIteration
      else Inr (hd (filter (\<lambda>log_q. dict_eq (inputs log_q) (inputs cost)) log_qs)))"
  by (simp add: lookup_marginal_def find_filter)

lemma markov_elbo_loop_result:
  "markov_elbo_loop gt log_qs elbo costs =
     (if \<exists>cost \<in> set costs. filter (\<lambda>log_q. dict_eq (inputs log_q) (inputs cost)) log_qs = []
      then Inl StopIteration
      else Inr (foldl (Binary Add) elbo
             (map (\<lambda>cost. markov_elbo_term gt
                     (hd (filter (\<lambda>log_q. dict_eq (inputs log_q) (inputs cost)) log_qs)) cost)
                costs)))"
  by (induction costs arbitrary: elbo) (simp_all add: lookup_marginal_filter)

lemma map_of_eq_dict_eq: "dict_eq xs ys \<longleftrightarrow> map_of xs = map_of ys"
proof
  assume eq: "dict_eq xs ys"
  show "map_of xs = map_of ys"
  proof (rule ext)
    fix k
    show "map_of xs k = map_of ys k"
    proof (cases "k \<in> set (map fst xs @ map fst ys)")
      case True
      then show ?thesis using eq by (simp add: dict_eq_def)
    next
      case False
      then have "map_of xs k = None" "map_of ys k = None"
        by (simp_all add: map_of_eq_None_iff)
      then show ?thesis by simp
    qed
  qed
next
  assume "map_of xs = map_of ys"
  then show "dict_eq xs ys" by (simp add: dict_eq_def)
qed

lemma markov_loss_value:
  assumes "terms_from_trace guide_tr = Inr (gt, guide_tr')"
    and "terms_from_trace model_tr = Inr (mt, model_tr')"
  shows "fst (TraceMarkovEnum_ELBO_loss eng guide_tr model_tr) =
     (case markov_elbo_loop gt (fst (markov_log_qs eng gt mt)) (Number 0) (markov_costs eng gt mt) of
        Inl e \<Rightarrow> Inl e
      | Inr elbo \<Rightarrow> Inr (- to_data eng (apply_optimizer eng elbo)))"
  using assms by (simp add: TraceMarkovEnum_ELBO_loss_def split: prod.splits)


text \<open>
  Claim C3, as amended. For each cost, in order, the marginal is the first of the
  marginals returned by the adjoint pass whose inputs equal the inputs of the cost as
  mappings from names to domains; that there is only one is not checked. If some cost
  has no such marginal the loss raises \<^verbatim>\<open>StopIteration\<close>; otherwise it is minus the value
  of the sum of the terms built from each cost and its first matching marginal.
\<close>

theorem markov_loss_takes_first_match:
  assumes "terms_from_trace guide_tr = Inr (gt, guide_tr')"
    and "terms_from_trace model_tr = Inr (mt, model_tr')"
  shows "(let costs = markov_costs eng gt mt;
              log_qs = fst (markov_log_qs eng gt mt);
              matches = (\<lambda>cost. filter (\<lambda>log_q. dict_eq (inputs log_q) (inputs cost)) log_qs)
          in fst (TraceMarkovEnum_ELBO_loss eng guide_tr model_tr) =
               (if \<exists>cost \<in> set costs. matches cost = [] then Inl StopIteration
                else Inr (- to_data eng (apply_optimizer eng
                       (foldl (Binary Add) (Number 0)
                          (map (\<lambda>cost. markov_elbo_term gt (hd (matches cost)) cost) costs)))))) \<and>
         (\<forall>log_q cost. dict_eq (inputs log_q) (inputs cost) \<longleftrightarrow>
                        map_of (inputs log_q) = map_of (inputs cost))"
  using markov_loss_value [OF assms, of eng]
  by (simp add: markov_elbo_loop_result Let_def map_of_eq_dict_eq)

lemma no_site_run: "terms_from_trace [] = Inr (bundle_of [], trace_after [])"
  by (rule terms_from_trace_readable) simp

lemma two_observed_run:
  "terms_from_trace two_observed_trace = Inr (bundle_of two_observed_trace, trace_after two_observed_trace)"
  by (rule terms_from_trace_readable) code_simp

lemma two_observed_costs:
  "markov_costs naive_engine (bundle_of []) (bundle_of two_observed_trace) =
     [Binary Mul (Tensor [] [3]) (Number 1), Binary Mul (Tensor [] [4]) (Number 1)]"
proof -
  have "log_factors (bundle_of two_observed_trace) =
      [Binary Mul (Tensor [] [3]) (Number 1), Binary Mul (Tensor [] [4]) (Number 1)]"
    "log_measures (bundle_of two_observed_trace) = []"
    "measure_vars (bundle_of two_observed_trace) = {}"
    "log_factors (bundle_of []) = []"
    by code_simp+
  then show ?thesis
    by (simp add: markov_costs_def markov_contracted_costs_def contracted_factors_def
        uncontracted_factors_def naive_engine_def Let_def)
qed

lemma two_observed_log_qs:
  "fst (markov_log_qs naive_engine (bundle_of []) (bundle_of two_observed_trace)) =
     [Tensor [] [0], Tensor [] [0]]"
proof -
  have "log_factors (bundle_of two_observed_trace) =
      [Binary Mul (Tensor [] [3]) (Number 1), Binary Mul (Tensor [] [4]) (Number 1)]"
    "log_measures (bundle_of two_observed_trace) = []"
    "measure_vars (bundle_of two_observed_trace) = {}"
    "log_measures (bundle_of []) = []"
    by code_simp+
  then show ?thesis
    by (simp add: markov_log_qs_def markov_targets_def markov_contracted_costs_def contracted_factors_def
        uncontracted_factors_def naive_engine_def Let_def probe_def merge_inputs_def)
qed

text \<open>
  Claim C3 as stated fails. With \<open>two_observed_trace\<close> as model and a guide without
  site, the two costs have the same inputs, each gets a probe, and the adjoint pass of
  \<open>naive_engine\<close> returns one marginal for each probe: two marginals match the first
  cost, and the loss is returned.
\<close>

theorem two_matching_marginals_counterexample:
  "length (filter (\<lambda>log_q. dict_eq (inputs log_q)
                     (inputs (markov_costs naive_engine (fst (projr (terms_from_trace [])))
                                 (fst (projr (terms_from_trace two_observed_trace))) ! 0)))
             (fst (markov_log_qs naive_engine (fst (projr (terms_from_trace [])))
                                 (fst (projr (terms_from_trace two_observed_trace)))))) = 2 \<and>
   \<not> isl (fst (TraceMarkovEnum_ELBO_loss naive_engine [] two_observed_trace))"
proof -
  have "fst (TraceMarkovEnum_ELBO_loss naive_engine [] two_observed_trace) =
     (case markov_elbo_loop (bundle_of [])
             [Tensor [] [0], Tensor [] [0]] (Number 0)
             [Binary Mul (Tensor [] [3]) (Number 1), Binary Mul (Tensor [] [4]) (Number 1)] of
        Inl e \<Rightarrow> Inl e
      | Inr elbo \<Rightarrow> Inr (- to_data naive_engine (apply_optimizer naive_engine elbo)))"
    using markov_loss_value [OF no_site_run two_observed_run, of naive_engine]
    by (simp add: two_observed_costs two_observed_log_qs)
  then have "\<not> isl (fst (TraceMarkovEnum_ELBO_loss naive_engine [] two_observed_trace))"
    by (simp add: lookup_marginal_def dict_eq_def merge_inputs_def)
  then show ?thesis
    by (simp add: no_site_run two_observed_run two_observed_costs two_observed_log_qs
        dict_eq_def merge_inputs_def)
qed

text \<open>
  On the same pair the loss takes the first of the two matching marginals for each
  cost and returns.
\<close>

theorem markov_loss_takes_first_match_witness:
  "fst (TraceMarkovEnum_ELBO_loss naive_engine [] two_observed_trace) = Inr 0"
proof -
  have "\<exists>elbo. fst (TraceMarkovEnum_ELBO_loss naive_engine [] two_observed_trace) =
      Inr (- to_data naive_engine elbo)"
    using markov_loss_takes_first_match [OF no_site_run two_observed_run, of naive_engine]
    by (auto simp: Let_def two_observed_costs two_observed_log_qs dict_eq_def merge_inputs_def)
  then show ?thesis
    by (auto simp: naive_engine_def)
qed

section \<open>The \<^verbatim>\<open>eliminate\<close> sets of the two losses\<close>







end
